theory Spec2Isabelle
  imports Complex_Main "HOL-Library.Multiset" "HOL-Library.AList"
begin

section \<open>Common vocabulary of the two providers\<close>

text \<open>
  Both providers compute amounts with big.js. A \<open>Big\<close> is an arbitrary-precision decimal;
  \<open>plus\<close>, \<open>minus\<close> and \<open>times\<close> are exact, so a \<open>Big\<close> is modelled by the rational
  number it denotes. A JavaScript number that holds an integer (a nonce, a block height, a
  confirmation count, an amount of satoshi) is modelled by \<open>nat\<close> or \<open>int\<close>.
\<close>

type_synonym big = rat

text \<open>
  A JavaScript number is a binary64 double: it holds every integer up to \<open>2^53\<close>, and
  above that only the integers with 53 significant bits. \<open>toNumber m\<close> is the number
  that an addition or \<open>parseInt\<close> yields when the exact result is the integer \<open>m\<close>:
  \<open>m\<close> rounded to 53 significant bits, to the nearest, a tie to the even neighbour.
  \<open>excess m\<close> is the count of bits that \<open>m\<close> has beyond 53.
\<close>

fun excess :: "nat \<Rightarrow> nat" where
  "excess m = (if m < 2 ^ 53 then 0 else Suc (excess (m div 2)))"

declare excess.simps [simp del]

definition toNumber :: "nat \<Rightarrow> nat" where
  "toNumber m =
     (let e = excess m; q = m div 2 ^ e; r = m mod 2 ^ e
      in (if 2 * r > 2 ^ e \<or> (2 * r = 2 ^ e \<and> odd q) then q + 1 else q) * 2 ^ e)"

text \<open>
  A rejected promise or a thrown exception is a value of type \<open>error\<close>;
  \<open>LibraryError\<close> is an exception that an external library throws.
\<close>

datatype error = IOFailure | TypeError | LibraryError

text \<open>
  \<open>Promise.all(xs.map(f))\<close>: every call must succeed; a failure rejects the whole.
\<close>

fun traverse :: "('a \<Rightarrow> error + 'b) \<Rightarrow> 'a list \<Rightarrow> error + 'b list" where
  "traverse f [] = Inr []"
| "traverse f (x # xs) =
     (case f x of
        Inl e \<Rightarrow> Inl e
      | Inr y \<Rightarrow> (case traverse f xs of Inl e \<Rightarrow> Inl e | Inr ys \<Rightarrow> Inr (y # ys)))"

text \<open>The JavaScript values \<open>null\<close>, \<open>true\<close> and \<open>false\<close>.\<close>

datatype js_value = Null | Bool bool

record wallet =
  address :: string
  privateKey :: string

section \<open>The account model: ethereumProvider.js\<close>

subsection \<open>The chain client\<close>

datatype block_tag = Latest | Pending

record receipt =
  status :: js_value
  blockNumber :: int

text \<open>
  The node behind \<open>web3\<close> and \<open>axios\<close>: balances in wei by address and block tag, the
  receipt of a transaction (\<open>null\<close> while it is unknown or pending), the height of the
  chain, the gas price in wei and the pending transaction count of an address.
\<close>

record eth_chain =
  eth_getBalance :: "string \<Rightarrow> block_tag \<Rightarrow> error + nat"
  getTransactionReceipt :: "string \<Rightarrow> error + receipt option"
  getBlockNumber :: "error + int"
  getGasPrice :: "error + nat"
  getTransactionCount :: "string \<Rightarrow> error + nat"

record balances =
  confirmed :: big
  total_balance :: big
  unconfirmed :: big

text \<open>\<open>fromWei(x, 'ether')\<close>: one ether is \<open>10^18\<close> wei.\<close>

definition fromWei :: "nat \<Rightarrow> big" where
  "fromWei w = of_nat w / 10 ^ 18"

definition getBalance :: "eth_chain \<Rightarrow> string \<Rightarrow> error + balances" where
  "getBalance chain a =
     (case eth_getBalance chain a Latest of
        Inl e \<Rightarrow> Inl e
      | Inr latest \<Rightarrow>
          (case eth_getBalance chain a Pending of
             Inl e \<Rightarrow> Inl e
           | Inr pending \<Rightarrow>
               Inr \<lparr>confirmed = fromWei latest, total_balance = fromWei pending,
                    unconfirmed = fromWei pending - fromWei latest\<rparr>))"

subsection \<open>Balance reconciliation: getReserveWithSpentBalances\<close>

text \<open>
  An entry of the \<open>spentBalances\<close> hash map is a \<open>string | number\<close> holding a decimal.
  The conditional of the source tests its truthiness: the number zero is falsy, every other
  number and every numeric string (also \<open>'0'\<close>) is truthy.
\<close>

datatype spent = NumberValue big | StringValue big

fun truthy :: "spent option \<Rightarrow> bool" where
  "truthy None = False"
| "truthy (Some (NumberValue v)) = (v \<noteq> 0)"
| "truthy (Some (StringValue v)) = True"

fun Big :: "spent \<Rightarrow> big" where
  "Big (NumberValue v) = v"
| "Big (StringValue v) = v"

record reserve = wallet +
  balance :: big

text \<open>The value that \<open>R.assoc('balance', ..., wallet)\<close> stores (lines 164 to 170).\<close>

definition spendable :: "big \<Rightarrow> spent option \<Rightarrow> big" where
  "spendable bal entry =
     (if truthy entry then (case entry of Some v \<Rightarrow> bal - Big v | None \<Rightarrow> bal) else bal)"

definition getReserveWithSpentBalances ::
  "eth_chain \<Rightarrow> wallet list \<Rightarrow> (string \<rightharpoonup> spent) \<Rightarrow> error + reserve list" where
  "getReserveWithSpentBalances chain wallets spentBalances =
     traverse
       (\<lambda>w. case getBalance chain (address w) of
               Inl e \<Rightarrow> Inl e
             | Inr b \<Rightarrow>
                 Inr \<lparr>address = address w, privateKey = privateKey w,
                      balance = spendable (confirmed b) (spentBalances (address w))\<rparr>)
       wallets"

text \<open>What the caller has earmarked for an address: zero when the map has no entry.\<close>

definition pendingSpend :: "(string \<rightharpoonup> spent) \<Rightarrow> string \<Rightarrow> big" where
  "pendingSpend spentBalances a = (case spentBalances a of None \<Rightarrow> 0 | Some v \<Rightarrow> Big v)"

subsection \<open>Signing: signTransaction\<close>

text \<open>
  The fields handed to \<open>new EthTransaction\<close>. \<open>toHex\<close> only changes the notation of a
  number, so the fields hold the numbers; \<open>value\<close> is the wei that
  \<open>toWei(amount, 'ether')\<close> returns; \<open>gas\<close> is the constant \<open>0x5208\<close>.
\<close>

record eth_tx =
  tx_nonce :: nat
  tx_gasPrice :: nat
  tx_value :: int
  tx_to :: string
  tx_gas :: nat

text \<open>
  The libraries web3 and ethereumjs-tx are external collaborators, and both may throw.
  \<open>toWei amount\<close> is what \<open>web3.utils.toWei(amount, 'ether')\<close> does with the
  JavaScript value \<open>amount\<close>: it returns wei, or throws (so on a text in exponent
  notation such as \<open>'1e-11'\<close>, or on a text with more than 18 decimal places).
  \<open>sign key tx\<close> is what building the \<open>EthTransaction\<close> of the fields \<open>tx\<close>,
  signing it with the key bytes \<open>key\<close> and reading \<open>tx.hash()\<close> and
  \<open>tx.serialize()\<close> does: it returns the two hexadecimal texts, or throws.
\<close>

record 'v signer =
  toWei :: "'v \<Rightarrow> error + int"
  sign :: "string \<Rightarrow> eth_tx \<Rightarrow> error + string \<times> string"

text \<open>The entry of one wallet in \<open>data.wallets\<close>.\<close>

record sequencing =
  nonce :: nat

record signed =
  hash :: string
  data_wallets :: "string \<rightharpoonup> sequencing"
  signedTransaction :: string

definition toLowerChar :: "char \<Rightarrow> char" where
  "toLowerChar c =
     (if 65 \<le> (of_char c :: nat) \<and> (of_char c :: nat) \<le> 90
      then char_of (of_char c + 32 :: nat) else c)"

definition toLower :: "string \<Rightarrow> string" where
  "toLower s = map toLowerChar s"

text \<open>
  \<open>data\<close> is destructured into \<open>gasPrice\<close> and \<open>wallets\<close>. Destructuring
  \<open>wallets[wallet.address]\<close> throws a TypeError when the map has no entry for the wallet.
  Then \<open>toWei\<close> is called, the transaction is built and signed, and the returned
  \<open>data\<close> holds the \<open>wallets\<close> map only:
  \<open>R.assocPath([wallet.address, 'nonce'], nonce + 1, wallets)\<close>, where \<open>nonce + 1\<close> is
  an addition of JavaScript numbers.
\<close>

definition signTransaction ::
  "'v signer \<Rightarrow> wallet \<Rightarrow> string \<Rightarrow> 'v \<Rightarrow> nat \<Rightarrow> (string \<rightharpoonup> sequencing) \<Rightarrow> error + signed" where
  "signTransaction lib w toAddress amount gasPrice wallets =
     (case wallets (address w) of
        None \<Rightarrow> Inl TypeError
      | Some entry \<Rightarrow>
          (case toWei lib amount of
             Inl e \<Rightarrow> Inl e
           | Inr wei \<Rightarrow>
               (case sign lib (drop 2 (privateKey w))
                       \<lparr>tx_nonce = nonce entry, tx_gasPrice = gasPrice, tx_value = wei,
                        tx_to = toAddress, tx_gas = 21000\<rparr> of
                  Inl e \<Rightarrow> Inl e
                | Inr (h, raw) \<Rightarrow>
                    Inr \<lparr>hash = ''0x'' @ toLower h,
                         data_wallets =
                           wallets(address w \<mapsto> entry\<lparr>nonce := toNumber (nonce entry + 1)\<rparr>),
                         signedTransaction = ''0x'' @ raw\<rparr>)))"

subsection \<open>Confirmation: isConfirmedTransactionByHash\<close>

text \<open>
  \<open>countConfirmations\<close> is \<open>config.confirmations.ethereum\<close>. The source returns
  \<open>tx && tx.status === true && blockNumber - tx.blockNumber >= countConfirmations\<close>: the
  \<open>null\<close> receipt itself when there is none, a boolean otherwise.
\<close>

definition eth_isConfirmedTransactionByHash :: "eth_chain \<Rightarrow> int \<Rightarrow> string \<Rightarrow> error + js_value" where
  "eth_isConfirmedTransactionByHash chain countConfirmations h =
     (case getTransactionReceipt chain h of
        Inl e \<Rightarrow> Inl e
      | Inr tx \<Rightarrow>
          (case getBlockNumber chain of
             Inl e \<Rightarrow> Inl e
           | Inr height \<Rightarrow>
               Inr (case tx of
                      None \<Rightarrow> Null
                    | Some r \<Rightarrow>
                        Bool (status r = Bool True
                              \<and> height - blockNumber r \<ge> countConfirmations))))"

subsection \<open>Deposit classification: getReceivedTransactions\<close>

text \<open>
  One entry of the explorer's \<open>txlist\<close>. The explorer sends numbers as decimal strings;
  the record holds the numbers that \<open>Big\<close> and \<open>parseInt\<close> read from them.
\<close>

record raw_tx =
  r_input :: string
  r_to :: string
  r_from :: string
  r_value :: nat
  r_gasPrice :: nat
  r_confirmations :: int
  r_hash :: string

text \<open>
  The \<open>result\<close> field of the explorer's answer: \<open>null\<close>, an array of transactions, or a
  text (the explorer reports its own errors so), on which \<open>.filter\<close> is not a function.
\<close>

datatype txlist = ResultNull | ResultList "raw_tx list" | ResultText string

record incoming =
  in_reserveId :: "nat option"
  in_fromAddress :: string
  in_reserveAddress :: string
  in_amount :: big
  in_fee :: big
  in_confirmations :: int
  in_hash :: string

text \<open>
  \<open>api\<close> is \<open>axios.get\<close> on the explorer's URL for an address; \<open>reserveWalletIds\<close> is
  the provider's table from reserve addresses to their identifiers. The fee is
  \<open>Big(tx.gasPrice).times('0.000000000000021')\<close>.
\<close>

definition eth_getReceivedTransactions ::
  "(string \<Rightarrow> error + txlist) \<Rightarrow> (string \<rightharpoonup> nat) \<Rightarrow> string \<Rightarrow> error + incoming list" where
  "eth_getReceivedTransactions api reserveWalletIds a =
     (let reserveAddress = toLower a in
      case api a of
        Inl e \<Rightarrow> Inl e
      | Inr ResultNull \<Rightarrow> Inr []
      | Inr (ResultText m) \<Rightarrow> Inl TypeError
      | Inr (ResultList transactions) \<Rightarrow>
          Inr (map (\<lambda>tx. \<lparr>in_reserveId = reserveWalletIds (r_to tx),
                           in_fromAddress = toLower (r_from tx),
                           in_reserveAddress = reserveAddress,
                           in_amount = of_nat (r_value tx) / 10 ^ 18,
                           in_fee = of_nat (r_gasPrice tx) * (21 / 10 ^ 15),
                           in_confirmations = r_confirmations tx,
                           in_hash = toLower (r_hash tx)\<rparr>)
                 (filter (\<lambda>tx. r_input tx = ''0x'' \<and> toLower (r_to tx) = reserveAddress)
                    transactions)))"

subsection \<open>Payment preparation: preparePayment\<close>

text \<open>
  Modelled from the spec: \<open>toHashMap\<close> of \<open>utils\<close> is not under src. Section 3 of
  the spec has the caller's pending spends as a mapping from a wallet address, or from a
  transaction id and output index, to what is earmarked; the three call sites give
  \<open>toHashMap\<close> a list, the key of an element and the value to store for it (a field of
  the element, or the constant \<open>true\<close>). It yields a JavaScript object, here the list of
  its entries in insertion order: a key that comes again keeps its place and takes the
  later value. \<open>R.keys\<close> lists the keys; a lookup reads the entry of a key.
\<close>

definition toHashMap :: "('a \<Rightarrow> string) \<Rightarrow> ('a \<Rightarrow> 'v) \<Rightarrow> 'a list \<Rightarrow> (string \<times> 'v) list" where
  "toHashMap key val xs = foldl (\<lambda>m x. AList.update (key x) (val x) m) [] xs"

definition keys :: "(string \<times> 'v) list \<Rightarrow> string list" where
  "keys m = map fst m"

definition lookup :: "(string \<times> 'v) list \<Rightarrow> string \<rightharpoonup> 'v" where
  "lookup m = map_of m"

text \<open>A payment request, as both providers receive it in \<open>toAddresses\<close>.\<close>

record request =
  rq_address :: string
  rq_amount :: big
  rq_id :: string

record request_fee = request +
  rq_fee :: big

record spent_balance =
  sb_address :: string
  sb_balance :: spent

record failed_tx =
  f_id :: string
  f_amount :: big
  f_toAddress :: string

record success_tx =
  s_wallet :: wallet
  s_id :: string
  s_amount :: big
  s_toAddress :: string

record prepare_data =
  pd_gasPrice :: nat
  pd_wallets :: "string \<rightharpoonup> sequencing"

record prepared =
  p_fee :: big
  p_prepareData :: prepare_data
  p_failedTransactions :: "failed_tx list"
  p_successTransactions :: "success_tx list"

text \<open>
  \<open>R.fromPairs\<close>: of two pairs with one key the rightmost stands.
\<close>

definition fromPairs :: "(string \<times> 'v) list \<Rightarrow> string \<rightharpoonup> 'v" where
  "fromPairs ps = map_of (rev ps)"

text \<open>
  \<open>walletsSelect\<close> is a method of \<open>commonProvider\<close>, which is not under src:
  \<open>eth_preparePayment\<close> takes it as its first argument. The fee is
  \<open>Big(gasPrice).times('0.000000000000021')\<close>, that is \<open>gasPrice * 21000 / 10^18\<close>, and
  the last line of the source replaces the amount of every selected transaction by that
  amount minus the fee.
\<close>

definition eth_preparePayment ::
  "(reserve list \<Rightarrow> request_fee list \<Rightarrow> failed_tx list \<times> success_tx list) \<Rightarrow>
   eth_chain \<Rightarrow> wallet list \<Rightarrow> request list \<Rightarrow> spent_balance list \<Rightarrow> error + prepared" where
  "eth_preparePayment walletsSelect chain wallets toAddresses spentBalances =
     (let spentBalancesHashMap = toHashMap sb_address sb_balance spentBalances in
      case getReserveWithSpentBalances chain wallets (lookup spentBalancesHashMap) of
        Inl e \<Rightarrow> Inl e
      | Inr reserves \<Rightarrow>
     (case getGasPrice chain of
        Inl e \<Rightarrow> Inl e
      | Inr gasPrice \<Rightarrow>
     (let fee = of_nat gasPrice * (21 / 10 ^ 15);
          toAddressesWithFee =
            map (\<lambda>q. \<lparr>rq_address = rq_address q, rq_amount = rq_amount q, rq_id = rq_id q,
                       rq_fee = fee\<rparr>) toAddresses
      in
      case traverse (\<lambda>w. case getTransactionCount chain (address w) of
                            Inl e \<Rightarrow> Inl e
                          | Inr n \<Rightarrow> Inr (address w, \<lparr>nonce = n\<rparr>)) wallets of
        Inl e \<Rightarrow> Inl e
      | Inr walletsHashMap \<Rightarrow>
          (case walletsSelect reserves toAddressesWithFee of
             (failedTransactions, successTransactions) \<Rightarrow>
               Inr \<lparr>p_fee = fee,
                    p_prepareData = \<lparr>pd_gasPrice = gasPrice, pd_wallets = fromPairs walletsHashMap\<rparr>,
                    p_failedTransactions = failedTransactions,
                    p_successTransactions =
                      map (\<lambda>tx. tx\<lparr>s_amount := s_amount tx - fee\<rparr>) successTransactions\<rparr>))))"

text \<open>
  Modelled from the spec: \<open>walletsSelect\<close> of \<open>commonProvider\<close> is not under src.
  Section 4.3 of the spec: each request, in the order given, goes to the first wallet, in
  the order given, whose remaining balance is at least the requested amount; that wallet's
  remaining balance is decremented by the amount for the requests that follow; a request
  that no wallet funds in full is reported failed.
\<close>

fun assign :: "reserve list \<Rightarrow> big \<Rightarrow> (wallet \<times> reserve list) option" where
  "assign [] amt = None"
| "assign (r # rs) amt =
     (if balance r \<ge> amt
      then Some (\<lparr>address = address r, privateKey = privateKey r\<rparr>,
                 r\<lparr>balance := balance r - amt\<rparr> # rs)
      else (case assign rs amt of
              None \<Rightarrow> None
            | Some (w, rs') \<Rightarrow> Some (w, r # rs')))"

fun walletsSelect :: "reserve list \<Rightarrow> request_fee list \<Rightarrow> failed_tx list \<times> success_tx list" where
  "walletsSelect rs [] = ([], [])"
| "walletsSelect rs (q # qs) =
     (case assign rs (rq_amount q) of
        None \<Rightarrow>
          (case walletsSelect rs qs of
             (failed, success) \<Rightarrow>
               (\<lparr>f_id = rq_id q, f_amount = rq_amount q, f_toAddress = rq_address q\<rparr> # failed,
                success))
      | Some (w, rs') \<Rightarrow>
          (case walletsSelect rs' qs of
             (failed, success) \<Rightarrow>
               (failed,
                \<lparr>s_wallet = w, s_id = rq_id q, s_amount = rq_amount q,
                 s_toAddress = rq_address q\<rparr> # success)))"

section \<open>The output model: bitcoinProvider.js\<close>

subsection \<open>The chain client\<close>

record utxo =
  u_address :: string
  u_txid :: string
  u_vout :: nat
  u_satoshis :: int
  u_confirmations :: int

record vin =
  addr :: string
  vin_value :: big

text \<open>\<open>addresses\<close> is \<open>scriptPubKey.addresses\<close>, which an output may lack.\<close>

record vout =
  addresses :: "string list option"
  vout_value :: big

record btc_raw =
  b_txid :: string
  b_vin :: "vin list"
  b_vout :: "vout list"
  b_confirmations :: int

text \<open>
  The explorer behind \<open>axios\<close>: the unspent outputs of an address, the fee estimate for a
  number of blocks, the confirmation count of a transaction and one page of the
  transactions of an address. The explorer estimates the fee in coins per kilobyte, a
  fraction \<open>data[blocks]\<close>; \<open>estimatefee chain blocks\<close> is the integer
  \<open>Math.round((data[blocks] * 1e8) / 1024)\<close> that the source makes of it in floating
  point arithmetic, which stays outside the model.
\<close>

record btc_chain =
  utxo_of :: "string \<Rightarrow> error + utxo list"
  estimatefee :: "nat \<Rightarrow> error + int"
  confirmations_of :: "string \<Rightarrow> error + int"
  txs_page :: "string \<Rightarrow> nat \<Rightarrow> error + btc_raw list"

definition getUnspentOutputs :: "btc_chain \<Rightarrow> string \<Rightarrow> error + utxo list" where
  "getUnspentOutputs chain a = utxo_of chain a"

text \<open>The rounded estimate, and never less than 2.\<close>

definition getEstimateFee :: "btc_chain \<Rightarrow> nat \<Rightarrow> error + int" where
  "getEstimateFee chain blocks =
     (case estimatefee chain blocks of
        Inl e \<Rightarrow> Inl e
      | Inr estimateFee \<Rightarrow> Inr (if estimateFee > 2 then estimateFee else 2))"

subsection \<open>Confirmation: isConfirmedTransactionByHash\<close>

text \<open>
  \<open>R.pathSatisfies(R.lte(config.confirmations.bitcoin), ['data', 'confirmations'])\<close>:
  \<open>R.lte(a)(b)\<close> is \<open>a <= b\<close>.
\<close>

definition btc_isConfirmedTransactionByHash :: "btc_chain \<Rightarrow> int \<Rightarrow> string \<Rightarrow> error + bool" where
  "btc_isConfirmedTransactionByHash chain countConfirmations h =
     (case confirmations_of chain h of
        Inl e \<Rightarrow> Inl e
      | Inr c \<Rightarrow> Inr (countConfirmations \<le> c))"

subsection \<open>Deposit classification: getReceivedTransactions\<close>

text \<open>\<open>R.uniqBy(f)\<close> keeps the first element of every key.\<close>

fun uniqByFrom :: "'k list \<Rightarrow> ('a \<Rightarrow> 'k) \<Rightarrow> 'a list \<Rightarrow> 'a list" where
  "uniqByFrom seen f [] = []"
| "uniqByFrom seen f (x # xs) =
     (if f x \<in> set seen then uniqByFrom seen f xs else x # uniqByFrom (f x # seen) f xs)"

definition uniqBy :: "('a \<Rightarrow> 'k) \<Rightarrow> 'a list \<Rightarrow> 'a list" where
  "uniqBy f xs = uniqByFrom [] f xs"

text \<open>
  The predicate of \<open>R.filter\<close>: no input of the reserve address, exactly one key in the
  hash map of the input addresses, and exactly one address on every output.
\<close>

definition isDeposit :: "string \<Rightarrow> btc_raw \<Rightarrow> bool" where
  "isDeposit reserveAddress tx =
     (let inputAddrHM = toHashMap addr (\<lambda>i. True) (b_vin tx) in
      if lookup inputAddrHM reserveAddress = Some True \<or> length (keys inputAddrHM) \<noteq> 1
      then False
      else list_all (\<lambda>out. case addresses out of
                              None \<Rightarrow> False
                            | Some as \<Rightarrow> length as = 1) (b_vout tx))"

text \<open>
  The first \<open>reduce\<close> of the mapping: the value of the outputs whose first address is the
  reserve address. Reading \<open>addresses[0]\<close> of an output without addresses throws.
\<close>

fun receivedAmount :: "string \<Rightarrow> vout list \<Rightarrow> big \<Rightarrow> error + big" where
  "receivedAmount reserveAddress [] value = Inr value"
| "receivedAmount reserveAddress (out # outs) value =
     (case addresses out of
        None \<Rightarrow> Inl TypeError
      | Some as \<Rightarrow>
          receivedAmount reserveAddress outs
            (if take 1 as = [reserveAddress] then value + vout_value out else value))"

definition toIncoming :: "string \<Rightarrow> btc_raw \<Rightarrow> error + incoming" where
  "toIncoming reserveAddress tx =
     (case receivedAmount reserveAddress (b_vout tx) 0 of
        Inl e \<Rightarrow> Inl e
      | Inr amount \<Rightarrow>
          (let valueIn = foldl (\<lambda>value input. value + vin_value input) 0 (b_vin tx);
               valueOut = foldl (\<lambda>value input. value + vout_value input) 0 (b_vout tx)
           in case b_vin tx of
                [] \<Rightarrow> Inl TypeError
              | i # _ \<Rightarrow>
                  Inr \<lparr>in_reserveId = None, in_fromAddress = addr i,
                       in_reserveAddress = reserveAddress, in_amount = amount,
                       in_fee = valueIn - valueOut, in_confirmations = b_confirmations tx,
                       in_hash = b_txid tx\<rparr>))"

text \<open>\<open>countPages\<close> is 3: \<open>R.times\<close> asks for the pages 0, 1 and 2.\<close>

definition btc_getReceivedTransactions :: "btc_chain \<Rightarrow> string \<Rightarrow> error + incoming list" where
  "btc_getReceivedTransactions chain reserveAddress =
     (case traverse (txs_page chain reserveAddress) [0 ..< 3] of
        Inl e \<Rightarrow> Inl e
      | Inr pages \<Rightarrow>
          traverse (toIncoming reserveAddress)
            (filter (isDeposit reserveAddress) (uniqBy b_txid (concat pages))))"

subsection \<open>Payment preparation: preparePayment\<close>

text \<open>
  \<open>R.sort(comparator, list)\<close> sorts a copy of the list with \<open>Array.prototype.sort\<close>.
  The model follows the insertion sort of the engine: every element in turn is put before
  the first element of the sorted part that the comparator orders it before (a negative
  result), or behind that part when there is none.
\<close>

fun insertBy :: "('a \<Rightarrow> 'a \<Rightarrow> int) \<Rightarrow> 'a \<Rightarrow> 'a list \<Rightarrow> 'a list" where
  "insertBy cmp x [] = [x]"
| "insertBy cmp x (y # ys) = (if cmp x y < 0 then x # y # ys else y # insertBy cmp x ys)"

definition sortBy :: "('a \<Rightarrow> 'a \<Rightarrow> int) \<Rightarrow> 'a list \<Rightarrow> 'a list" where
  "sortBy cmp xs = foldl (\<lambda>sorted x. insertBy cmp x sorted) [] xs"

text \<open>
  The comparator of the source: \<open>(a, b) => (a.amount > b.amount ? 1 : -1)\<close>. It answers
  \<open>-1\<close> for two requests of one amount, whichever comes first, so of such requests the one
  the caller listed later is sorted to the front.
\<close>

definition byAmount :: "request \<Rightarrow> request \<Rightarrow> int" where
  "byAmount a b = (if rq_amount a > rq_amount b then 1 else - 1)"

text \<open>
  \<open>Big.prototype.round(dp, rm)\<close> of big.js: to \<open>dp\<close> decimal places, with rounding mode
  0 towards zero, 1 to the nearest and a half away from zero, 2 to the nearest and a half
  to the even neighbour, 3 away from zero.
\<close>

definition roundBig :: "nat \<Rightarrow> nat \<Rightarrow> big \<Rightarrow> big" where
  "roundBig dp rm x =
     (let m = \<bar>x\<bar> * 10 ^ dp;
          t = \<lfloor>m\<rfloor>;
          r = m - of_int t;
          up = (if rm = 0 then False
                else if rm = 1 then r \<ge> 1 / 2
                else if rm = 2 then r > 1 / 2 \<or> (r = 1 / 2 \<and> odd t)
                else r > 0)
      in sgn x * of_int (if up then t + 1 else t) / 10 ^ dp)"

text \<open>
  \<open>parseInt(b.toString(), 10)\<close> for an integral \<open>Big\<close>. Below \<open>10^21\<close> the text is the
  integer in positional notation, and \<open>parseInt\<close> returns the JavaScript number nearest
  to it. From \<open>10^21\<close> on \<open>toString\<close> writes exponential notation (\<open>Big.PE\<close> is 21),
  of which \<open>parseInt\<close> reads the leading digit only.
\<close>

fun leadingDigit :: "nat \<Rightarrow> nat" where
  "leadingDigit n = (if n < 10 then n else leadingDigit (n div 10))"

declare leadingDigit.simps [simp del]

definition parseIntOfBig :: "big \<Rightarrow> int" where
  "parseIntOfBig b =
     (let v = \<lfloor>b\<rfloor>
      in if \<bar>v\<bar> < 10 ^ 21 then sgn v * int (toNumber (nat \<bar>v\<bar>))
         else sgn v * int (leadingDigit (nat \<bar>v\<bar>)))"

text \<open>The satoshi of an amount: \<open>new Big(amount).times(1e8).round(0, 0)\<close>, read back.\<close>

definition toSatoshi :: "big \<Rightarrow> int" where
  "toSatoshi amount = parseIntOfBig (roundBig 0 0 (amount * 10 ^ 8))"

text \<open>Satoshi back to coins, as \<open>signTransaction\<close> does for the fee: \<open>div(1e8)\<close>.\<close>

definition fromSatoshi :: "int \<Rightarrow> big" where
  "fromSatoshi v = of_int v / 10 ^ 8"

record btc_transaction =
  t_id :: string
  t_amount :: big
  t_toAddress :: string
  t_value :: int

definition transactions :: "request list \<Rightarrow> btc_transaction list" where
  "transactions toAddresses =
     map (\<lambda>q. \<lparr>t_id = rq_id q, t_amount = rq_amount q, t_toAddress = rq_address q,
                t_value = toSatoshi (rq_amount q)\<rparr>)
       (sortBy byAmount toAddresses)"

text \<open>The decimal text of a number, as a template literal writes it.\<close>

fun decimal :: "nat \<Rightarrow> string" where
  "decimal n =
     (if n < 10 then [char_of (48 + n)] else decimal (n div 10) @ [char_of (48 + n mod 10)])"

declare decimal.simps [simp del]

record spent_output =
  so_txid :: string
  so_vout :: nat

text \<open>
  The call \<open>toHashMap(spentOutputs)\<close> names neither key nor value. The filter looks an
  output up under the text \<open>`${txid}${vout}`\<close>, so this is the key of a listed output,
  and its value is \<open>true\<close>.
\<close>

definition outputKey :: "string \<Rightarrow> nat \<Rightarrow> string" where
  "outputKey txid n = txid @ decimal n"

record utxo_value = utxo +
  u_value :: int

text \<open>\<open>R.assoc('value', output.satoshis, output)\<close>.\<close>

definition assocValue :: "utxo \<Rightarrow> utxo_value" where
  "assocValue output =
     \<lparr>u_address = u_address output, u_txid = u_txid output, u_vout = u_vout output,
      u_satoshis = u_satoshis output, u_confirmations = u_confirmations output,
      u_value = u_satoshis output\<rparr>"

definition transformedUtxo :: "(string \<times> bool) list \<Rightarrow> utxo list \<Rightarrow> utxo_value list" where
  "transformedUtxo spentOutputsHashMap us =
     map assocValue
       (filter (\<lambda>output. u_confirmations output > 0
                  \<and> lookup spentOutputsHashMap (outputKey (u_txid output) (u_vout output))
                      \<noteq> Some True) us)"

text \<open>
  \<open>coinSelect\<close> is a method of \<open>commonProvider\<close>, which is not under src:
  \<open>btc_preparePayment\<close> takes it as its first argument and returns what it returns.
\<close>

definition btc_preparePayment ::
  "(utxo_value list \<Rightarrow> btc_transaction list \<Rightarrow> int \<Rightarrow> 'r) \<Rightarrow>
   btc_chain \<Rightarrow> wallet list \<Rightarrow> request list \<Rightarrow> spent_output list \<Rightarrow> error + 'r" where
  "btc_preparePayment coinSelect chain wallets toAddresses spentOutputs =
     (case traverse (\<lambda>w. getUnspentOutputs chain (address w)) wallets of
        Inl e \<Rightarrow> Inl e
      | Inr found \<Rightarrow>
          (case getEstimateFee chain 2 of
             Inl e \<Rightarrow> Inl e
           | Inr feeRate \<Rightarrow>
               (let spentOutputsHashMap =
                      toHashMap (\<lambda>s. outputKey (so_txid s) (so_vout s)) (\<lambda>s. True) spentOutputs
                in Inr (coinSelect (transformedUtxo spentOutputsHashMap (concat found))
                          (transactions toAddresses) feeRate))))"

section \<open>The rounding rule of the spec\<close>

text \<open>
  The rounding rule in the words of the spec, for comparison with \<open>toSatoshi\<close>: to the
  nearest integer, a half away from zero.
\<close>

definition spec_roundHalfAwayFromZero :: "big \<Rightarrow> int" where
  "spec_roundHalfAwayFromZero x = (if x < 0 then - \<lfloor>- x + 1 / 2\<rfloor> else \<lfloor>x + 1 / 2\<rfloor>)"

section \<open>Properties\<close>

lemma traverse_Inr: "(\<And>x. x \<in> set xs \<Longrightarrow> f x = Inr (g x)) \<Longrightarrow> traverse f xs = Inr (map g xs)"
  by (induction xs) simp_all

lemma spendable_eq: "spendable bal entry = bal - (case entry of None \<Rightarrow> 0 | Some v \<Rightarrow> Big v)"
  by (cases entry rule: truthy.cases) (simp_all add: spendable_def)

subsection \<open>Balance reconciliation\<close>

lemma getBalance_confirmed:
  assumes "eth_getBalance chain a Latest = Inr l" and "eth_getBalance chain a Pending = Inr p"
  shows "getBalance chain a =
    Inr \<lparr>confirmed = fromWei l, total_balance = fromWei p, unconfirmed = fromWei p - fromWei l\<rparr>"
  using assms by (simp add: getBalance_def)

text \<open>
  Claim C3. When the two balance reads of every wallet succeed, \<open>latest a\<close> and
  \<open>pending a\<close> being the wei the node reports for address \<open>a\<close>, reconciliation returns
  every wallet, in order, with \<open>balance\<close> the confirmed balance minus the pending spend
  the caller supplied for its address. Nothing clamps the difference at zero, and a wallet
  whose entry is absent or the number zero keeps its confirmed balance: the expression of
  the source yields the balance itself for such an entry and the difference for any other.
\<close>

theorem reconcile_balance:
  assumes "\<forall>w \<in> set wallets. eth_getBalance chain (address w) Latest = Inr (latest (address w))
             \<and> eth_getBalance chain (address w) Pending = Inr (pending (address w))"
  shows "getReserveWithSpentBalances chain wallets spentBalances =
           Inr (map (\<lambda>w. \<lparr>address = address w, privateKey = privateKey w,
                            balance = fromWei (latest (address w))
                                      - pendingSpend spentBalances (address w)\<rparr>) wallets)
         \<and> spendable bal None = bal \<and> spendable bal (Some (NumberValue 0)) = bal
         \<and> spendable bal (Some (NumberValue v)) = bal - v \<and> spendable bal (Some (StringValue v)) = bal - v"
proof
  show "getReserveWithSpentBalances chain wallets spentBalances =
           Inr (map (\<lambda>w. \<lparr>address = address w, privateKey = privateKey w,
                            balance = fromWei (latest (address w))
                                      - pendingSpend spentBalances (address w)\<rparr>) wallets)"
    unfolding getReserveWithSpentBalances_def
  proof (rule traverse_Inr)
    fix w assume "w \<in> set wallets"
    with assms have "getBalance chain (address w) =
        Inr \<lparr>confirmed = fromWei (latest (address w)), total_balance = fromWei (pending (address w)),
             unconfirmed = fromWei (pending (address w)) - fromWei (latest (address w))\<rparr>"
      by (simp add: getBalance_confirmed)
    then show "(case getBalance chain (address w) of
               Inl e \<Rightarrow> Inl e
             | Inr b \<Rightarrow>
                 Inr \<lparr>address = address w, privateKey = privateKey w,
                      balance = spendable (confirmed b) (spentBalances (address w))\<rparr>) =
          Inr \<lparr>address = address w, privateKey = privateKey w,
               balance = fromWei (latest (address w)) - pendingSpend spentBalances (address w)\<rparr>"
      by (simp add: spendable_eq pendingSpend_def)
  qed
next
  show "spendable bal None = bal \<and> spendable bal (Some (NumberValue 0)) = bal
         \<and> spendable bal (Some (NumberValue v)) = bal - v \<and> spendable bal (Some (StringValue v)) = bal - v"
    by (simp add: spendable_eq)
qed

text \<open>
  Two wallets holding 5 and 1 ether; the caller has earmarked 2 ether of the second one. The
  first keeps 5, the second is left with \<open>-1\<close>.
\<close>

theorem reconcile_balance_witness:
  "getReserveWithSpentBalances
     \<lparr>eth_getBalance = (\<lambda>a t. if a = ''0xaa'' then Inr (5 * 10 ^ 18) else Inr (10 ^ 18)),
      getTransactionReceipt = (\<lambda>h. Inr None), getBlockNumber = Inr 0, getGasPrice = Inr 1,
      getTransactionCount = (\<lambda>a. Inr 0)\<rparr>
     [\<lparr>address = ''0xaa'', privateKey = ''0x01''\<rparr>, \<lparr>address = ''0xbb'', privateKey = ''0x02''\<rparr>]
     [''0xbb'' \<mapsto> StringValue 2]
   = Inr [\<lparr>address = ''0xaa'', privateKey = ''0x01'', balance = 5\<rparr>,
          \<lparr>address = ''0xbb'', privateKey = ''0x02'', balance = - 1\<rparr>]"
  using reconcile_balance
    [of "[\<lparr>address = ''0xaa'', privateKey = ''0x01''\<rparr>, \<lparr>address = ''0xbb'', privateKey = ''0x02''\<rparr>]"
        "\<lparr>eth_getBalance = (\<lambda>a t. if a = ''0xaa'' then Inr (5 * 10 ^ 18) else Inr (10 ^ 18)),
          getTransactionReceipt = (\<lambda>h. Inr None), getBlockNumber = Inr 0, getGasPrice = Inr 1,
          getTransactionCount = (\<lambda>a. Inr 0)\<rparr>"
        "\<lambda>a. if a = ''0xaa'' then 5 * 10 ^ 18 else 10 ^ 18"
        "\<lambda>a. if a = ''0xaa'' then 5 * 10 ^ 18 else 10 ^ 18"
        "[''0xbb'' \<mapsto> StringValue 2]"]
  by (simp add: fromWei_def pendingSpend_def)

subsection \<open>JavaScript numbers\<close>

lemma excess_small: "m < 2 ^ 53 \<Longrightarrow> excess m = 0"
  by (subst excess.simps) simp

lemma toNumber_small: "m < 2 ^ 53 \<Longrightarrow> toNumber m = m"
  by (simp add: toNumber_def excess_small)

lemma excess_limit: "excess 9007199254740992 = 1" and excess_beyond: "excess 9007199254740993 = 1"
  by (subst excess.simps, simp add: excess_small)+

lemma toNumber_limit: "toNumber (2 ^ 53) = 2 ^ 53"
  by (simp add: toNumber_def excess_limit)

lemma toNumber_exact: "m \<le> 2 ^ 53 \<Longrightarrow> toNumber m = m"
  using toNumber_small [of m] toNumber_limit by (cases "m = 2 ^ 53") simp_all

text \<open>The first integer that no number holds: it is rounded back to \<open>2^53\<close>.\<close>

lemma toNumber_beyond: "toNumber (2 ^ 53 + 1) = 2 ^ 53"
  by (simp add: toNumber_def excess_beyond)

subsection \<open>Nonce sequencing\<close>

lemma signTransaction_step:
  assumes "wallets (address w) = Some \<lparr>nonce = n\<rparr>"
    and "n < 2 ^ 53"
    and "toWei lib amount = Inr wei"
    and "sign lib (drop 2 (privateKey w))
           \<lparr>tx_nonce = n, tx_gasPrice = gasPrice, tx_value = wei, tx_to = toAddress,
            tx_gas = 21000\<rparr> = Inr (h, raw)"
  shows "signTransaction lib w toAddress amount gasPrice wallets =
    Inr \<lparr>hash = ''0x'' @ toLower h,
         data_wallets = wallets(address w \<mapsto> \<lparr>nonce = n + 1\<rparr>),
         signedTransaction = ''0x'' @ raw\<rparr>"
proof -
  from assms(2) have "toNumber (n + 1) = n + 1"
    by (intro toNumber_exact) simp
  with assms(1,3,4) show ?thesis
    by (simp add: signTransaction_def)
qed

text \<open>
  Where the conditions of the step fail, so does the step: an exception of \<open>toWei\<close> or of
  the signing is the outcome of \<open>signTransaction\<close> and no map is returned, and at the nonce
  \<open>2^53\<close> the addition \<open>nonce + 1\<close> yields \<open>2^53\<close> again.
\<close>

lemma signTransaction_throws:
  assumes "wallets (address w) = Some entry"
  shows "toWei lib amount = Inl e \<Longrightarrow>
      signTransaction lib w toAddress amount gasPrice wallets = Inl e"
    and "toWei lib amount = Inr wei \<Longrightarrow>
      sign lib (drop 2 (privateKey w))
        \<lparr>tx_nonce = nonce entry, tx_gasPrice = gasPrice, tx_value = wei, tx_to = toAddress,
         tx_gas = 21000\<rparr> = Inl e \<Longrightarrow>
      signTransaction lib w toAddress amount gasPrice wallets = Inl e"
  using assms by (simp_all add: signTransaction_def)

lemma signTransaction_nonce_limit:
  assumes "wallets (address w) = Some \<lparr>nonce = 2 ^ 53\<rparr>"
    and "toWei lib amount = Inr wei"
    and "sign lib (drop 2 (privateKey w))
           \<lparr>tx_nonce = 2 ^ 53, tx_gasPrice = gasPrice, tx_value = wei, tx_to = toAddress,
            tx_gas = 21000\<rparr> = Inr (h, raw)"
  shows "signTransaction lib w toAddress amount gasPrice wallets =
    Inr \<lparr>hash = ''0x'' @ toLower h,
         data_wallets = wallets(address w \<mapsto> \<lparr>nonce = 2 ^ 53\<rparr>),
         signedTransaction = ''0x'' @ raw\<rparr>"
  using assms toNumber_beyond by (simp add: signTransaction_def)

text \<open>
  Claim C2. The supplied \<open>wallets\<close> map holds nonce \<open>n\<close> for \<open>wallet.address\<close>, the
  nonces stay within the integers that a JavaScript number counts exactly (up to
  \<open>2^53\<close>), and \<open>toWei\<close> and the signing library accept what they are given. Then
  \<open>signTransaction\<close> returns the transaction that the library signed with nonce \<open>n\<close>,
  and in the map it returns the wallet's nonce is \<open>n + 1\<close> while every other address keeps
  its entry. Hence three calls for one wallet, each given the map the call before returned,
  sign transactions with the nonces \<open>n\<close>, \<open>n + 1\<close> and \<open>n + 2\<close> and leave \<open>n + 3\<close>:
  from 7 these are 7, 8 and 9, each used once.
\<close>

theorem signTransaction_nonce:
  assumes "wallets (address w) = Some \<lparr>nonce = n\<rparr>"
    and "n + 3 \<le> 2 ^ 53"
    and "toWei lib amountA = Inr weiA"
    and "toWei lib amountB = Inr weiB"
    and "toWei lib amountC = Inr weiC"
    and "sign lib (drop 2 (privateKey w))
           \<lparr>tx_nonce = n, tx_gasPrice = gasPrice, tx_value = weiA, tx_to = toA,
            tx_gas = 21000\<rparr> = Inr (hashA, rawA)"
    and "sign lib (drop 2 (privateKey w))
           \<lparr>tx_nonce = n + 1, tx_gasPrice = gasPrice, tx_value = weiB, tx_to = toB,
            tx_gas = 21000\<rparr> = Inr (hashB, rawB)"
    and "sign lib (drop 2 (privateKey w))
           \<lparr>tx_nonce = n + 2, tx_gasPrice = gasPrice, tx_value = weiC, tx_to = toC,
            tx_gas = 21000\<rparr> = Inr (hashC, rawC)"
  shows "\<exists>s1 s2 s3.
      signTransaction lib w toA amountA gasPrice wallets = Inr s1
    \<and> signedTransaction s1 = ''0x'' @ rawA \<and> hash s1 = ''0x'' @ toLower hashA
    \<and> data_wallets s1 (address w) = Some \<lparr>nonce = n + 1\<rparr>
    \<and> (\<forall>a. a = address w \<or> data_wallets s1 a = wallets a)
    \<and> signTransaction lib w toB amountB gasPrice (data_wallets s1) = Inr s2
    \<and> signedTransaction s2 = ''0x'' @ rawB \<and> hash s2 = ''0x'' @ toLower hashB
    \<and> data_wallets s2 (address w) = Some \<lparr>nonce = n + 2\<rparr>
    \<and> (\<forall>a. a = address w \<or> data_wallets s2 a = wallets a)
    \<and> signTransaction lib w toC amountC gasPrice (data_wallets s2) = Inr s3
    \<and> signedTransaction s3 = ''0x'' @ rawC \<and> hash s3 = ''0x'' @ toLower hashC
    \<and> data_wallets s3 (address w) = Some \<lparr>nonce = n + 3\<rparr>
    \<and> (\<forall>a. a = address w \<or> data_wallets s3 a = wallets a)
    \<and> distinct [n, n + 1, n + 2]"
proof -
  let ?w1 = "wallets(address w \<mapsto> \<lparr>nonce = n + 1\<rparr>)"
  let ?w2 = "?w1(address w \<mapsto> \<lparr>nonce = n + 2\<rparr>)"
  let ?w3 = "?w2(address w \<mapsto> \<lparr>nonce = n + 3\<rparr>)"
  let ?s1 = "\<lparr>hash = ''0x'' @ toLower hashA, data_wallets = ?w1,
              signedTransaction = ''0x'' @ rawA\<rparr>"
  let ?s2 = "\<lparr>hash = ''0x'' @ toLower hashB, data_wallets = ?w2,
              signedTransaction = ''0x'' @ rawB\<rparr>"
  let ?s3 = "\<lparr>hash = ''0x'' @ toLower hashC, data_wallets = ?w3,
              signedTransaction = ''0x'' @ rawC\<rparr>"
  from assms(2) have b: "n < 2 ^ 53" "n + 1 < 2 ^ 53" "n + 2 < 2 ^ 53"
    by simp_all
  have e1: "?w1 (address w) = Some \<lparr>nonce = n + 1\<rparr>"
    and e2: "?w2 (address w) = Some \<lparr>nonce = n + 2\<rparr>"
    by simp_all
  have r1: "signTransaction lib w toA amountA gasPrice wallets = Inr ?s1"
    using signTransaction_step
      [where wallets = wallets and w = w and n = n, OF assms(1) b(1) assms(3) assms(6)] .
  have "signTransaction lib w toB amountB gasPrice ?w1 =
      Inr \<lparr>hash = ''0x'' @ toLower hashB,
           data_wallets = ?w1(address w \<mapsto> \<lparr>nonce = n + 1 + 1\<rparr>),
           signedTransaction = ''0x'' @ rawB\<rparr>"
    using signTransaction_step
      [where wallets = ?w1 and w = w and n = "n + 1", OF e1 b(2) assms(4) assms(7)] .
  moreover have "n + 1 + 1 = n + 2"
    by simp
  ultimately have r2: "signTransaction lib w toB amountB gasPrice ?w1 = Inr ?s2"
    by (simp only:)
  have "signTransaction lib w toC amountC gasPrice ?w2 =
      Inr \<lparr>hash = ''0x'' @ toLower hashC,
           data_wallets = ?w2(address w \<mapsto> \<lparr>nonce = n + 2 + 1\<rparr>),
           signedTransaction = ''0x'' @ rawC\<rparr>"
    using signTransaction_step
      [where wallets = ?w2 and w = w and n = "n + 2", OF e2 b(3) assms(5) assms(8)] .
  moreover have "n + 2 + 1 = n + 3"
    by simp
  ultimately have r3: "signTransaction lib w toC amountC gasPrice ?w2 = Inr ?s3"
    by (simp only:)
  have "signTransaction lib w toA amountA gasPrice wallets = Inr ?s1
    \<and> signedTransaction ?s1 = ''0x'' @ rawA \<and> hash ?s1 = ''0x'' @ toLower hashA
    \<and> data_wallets ?s1 (address w) = Some \<lparr>nonce = n + 1\<rparr>
    \<and> (\<forall>a. a = address w \<or> data_wallets ?s1 a = wallets a)
    \<and> signTransaction lib w toB amountB gasPrice (data_wallets ?s1) = Inr ?s2
    \<and> signedTransaction ?s2 = ''0x'' @ rawB \<and> hash ?s2 = ''0x'' @ toLower hashB
    \<and> data_wallets ?s2 (address w) = Some \<lparr>nonce = n + 2\<rparr>
    \<and> (\<forall>a. a = address w \<or> data_wallets ?s2 a = wallets a)
    \<and> signTransaction lib w toC amountC gasPrice (data_wallets ?s2) = Inr ?s3
    \<and> signedTransaction ?s3 = ''0x'' @ rawC \<and> hash ?s3 = ''0x'' @ toLower hashC
    \<and> data_wallets ?s3 (address w) = Some \<lparr>nonce = n + 3\<rparr>
    \<and> (\<forall>a. a = address w \<or> data_wallets ?s3 a = wallets a)
    \<and> distinct [n, n + 1, n + 2]"
    using r1 r2 r3 by simp
  then show ?thesis
    by blast
qed

text \<open>
  A wallet at nonce 7 signs three transfers of 1, 2 and 3 ether. The stand-in library
  converts whole ether and serialises a transaction as one character per unit of its
  nonce, so the nonces 7, 8 and 9 can be read off.
\<close>

theorem signTransaction_nonce_witness:
  "\<exists>s1 s2 s3.
      signTransaction
        \<lparr>toWei = (\<lambda>a :: int. Inr (a * 10 ^ 18)),
         sign = (\<lambda>k t. Inr (''FF'', replicate (tx_nonce t) CHR ''n''))\<rparr>
        \<lparr>address = ''0xaa'', privateKey = ''0x01''\<rparr> ''0xb1'' 1 5 [''0xaa'' \<mapsto> \<lparr>nonce = 7\<rparr>]
        = Inr s1
    \<and> signedTransaction s1 = ''0xnnnnnnn''
    \<and> data_wallets s1 ''0xaa'' = Some \<lparr>nonce = 8\<rparr>
    \<and> signTransaction
        \<lparr>toWei = (\<lambda>a :: int. Inr (a * 10 ^ 18)),
         sign = (\<lambda>k t. Inr (''FF'', replicate (tx_nonce t) CHR ''n''))\<rparr>
        \<lparr>address = ''0xaa'', privateKey = ''0x01''\<rparr> ''0xb2'' 2 5 (data_wallets s1)
        = Inr s2
    \<and> signedTransaction s2 = ''0xnnnnnnnn''
    \<and> data_wallets s2 ''0xaa'' = Some \<lparr>nonce = 9\<rparr>
    \<and> signTransaction
        \<lparr>toWei = (\<lambda>a :: int. Inr (a * 10 ^ 18)),
         sign = (\<lambda>k t. Inr (''FF'', replicate (tx_nonce t) CHR ''n''))\<rparr>
        \<lparr>address = ''0xaa'', privateKey = ''0x01''\<rparr> ''0xb3'' 3 5 (data_wallets s2)
        = Inr s3
    \<and> signedTransaction s3 = ''0xnnnnnnnnn''
    \<and> data_wallets s3 ''0xaa'' = Some \<lparr>nonce = 10\<rparr>"
proof -
  let ?w = "\<lparr>address = ''0xaa'', privateKey = ''0x01''\<rparr>"
  let ?lib = "\<lparr>toWei = (\<lambda>a :: int. Inr (a * 10 ^ 18)),
               sign = (\<lambda>k t. Inr (''FF'', replicate (tx_nonce t) CHR ''n''))\<rparr>"
  have h: "[''0xaa'' \<mapsto> \<lparr>nonce = 7\<rparr>] (address ?w) = Some \<lparr>nonce = 7\<rparr>"
    by simp
  have safe: "(7 :: nat) + 3 \<le> 2 ^ 53"
    by simp
  have r7: "replicate 7 CHR ''n'' = ''nnnnnnn''" and r8: "replicate 8 CHR ''n'' = ''nnnnnnnn''"
    and r9: "replicate 9 CHR ''n'' = ''nnnnnnnnn''"
    by code_simp+
  have wA: "toWei ?lib 1 = Inr (10 ^ 18)" and wB: "toWei ?lib 2 = Inr (2 * 10 ^ 18)"
    and wC: "toWei ?lib 3 = Inr (3 * 10 ^ 18)"
    by simp_all
  have sA: "sign ?lib (drop 2 (privateKey ?w))
      \<lparr>tx_nonce = 7, tx_gasPrice = 5, tx_value = 10 ^ 18, tx_to = ''0xb1'', tx_gas = 21000\<rparr>
      = Inr (''FF'', ''nnnnnnn'')"
    by (simp add: r7)
  have sB: "sign ?lib (drop 2 (privateKey ?w))
      \<lparr>tx_nonce = 7 + 1, tx_gasPrice = 5, tx_value = 2 * 10 ^ 18, tx_to = ''0xb2'',
       tx_gas = 21000\<rparr> = Inr (''FF'', ''nnnnnnnn'')"
    by (simp add: r8)
  have sC: "sign ?lib (drop 2 (privateKey ?w))
      \<lparr>tx_nonce = 7 + 2, tx_gasPrice = 5, tx_value = 3 * 10 ^ 18, tx_to = ''0xb3'',
       tx_gas = 21000\<rparr> = Inr (''FF'', ''nnnnnnnnn'')"
    by (simp add: r9)
  from signTransaction_nonce
    [where wallets = "[''0xaa'' \<mapsto> \<lparr>nonce = 7\<rparr>]" and w = ?w and n = 7 and lib = ?lib,
     OF h safe wA wB wC sA sB sC]
  obtain s1 s2 s3 where
    "signTransaction ?lib ?w ''0xb1'' 1 5 [''0xaa'' \<mapsto> \<lparr>nonce = 7\<rparr>] = Inr s1"
    "signedTransaction s1 = ''0x'' @ ''nnnnnnn''"
    "data_wallets s1 (address ?w) = Some \<lparr>nonce = 7 + 1\<rparr>"
    "signTransaction ?lib ?w ''0xb2'' 2 5 (data_wallets s1) = Inr s2"
    "signedTransaction s2 = ''0x'' @ ''nnnnnnnn''"
    "data_wallets s2 (address ?w) = Some \<lparr>nonce = 7 + 2\<rparr>"
    "signTransaction ?lib ?w ''0xb3'' 3 5 (data_wallets s2) = Inr s3"
    "signedTransaction s3 = ''0x'' @ ''nnnnnnnnn''"
    "data_wallets s3 (address ?w) = Some \<lparr>nonce = 7 + 3\<rparr>"
    by blast
  then show ?thesis
    by (intro exI [of _ s1] exI [of _ s2] exI [of _ s3] conjI) simp_all
qed

subsection \<open>Confirmation threshold, account model\<close>

lemma eth_isConfirmed_reads:
  assumes "getTransactionReceipt chain h = Inr tx" and "getBlockNumber chain = Inr height"
  shows "eth_isConfirmedTransactionByHash chain c h =
    Inr (case tx of None \<Rightarrow> Null
         | Some r \<Rightarrow> Bool (status r = Bool True \<and> height - blockNumber r \<ge> c))"
  using assms by (simp add: eth_isConfirmedTransactionByHash_def)

text \<open>
  Claim C7. The account-model check answers \<open>true\<close> exactly when the transaction has a
  receipt whose status is \<open>true\<close> and the chain height minus the receipt's block number
  is at least the threshold; the output-model check answers \<open>true\<close> exactly when the
  confirmation count the explorer reports is at least the threshold. In both, a transaction
  exactly at the threshold is confirmed and one confirmation short of it is not.
\<close>

theorem isConfirmedTransactionByHash_threshold:
  "(eth_isConfirmedTransactionByHash chain c h = Inr (Bool True)) =
     (\<exists>r height. getTransactionReceipt chain h = Inr (Some r) \<and> getBlockNumber chain = Inr height
        \<and> status r = Bool True \<and> height - blockNumber r \<ge> c)
   \<and> eth_isConfirmedTransactionByHash
         (chain\<lparr>getTransactionReceipt := \<lambda>x. Inr (Some \<lparr>status = Bool True, blockNumber = b\<rparr>),
                getBlockNumber := Inr (b + c)\<rparr>) c h = Inr (Bool True)
   \<and> eth_isConfirmedTransactionByHash
         (chain\<lparr>getTransactionReceipt := \<lambda>x. Inr (Some \<lparr>status = Bool True, blockNumber = b\<rparr>),
                getBlockNumber := Inr (b + (c - 1))\<rparr>) c h = Inr (Bool False)
   \<and> (btc_isConfirmedTransactionByHash explorer c h = Inr True) =
     (\<exists>n. confirmations_of explorer h = Inr n \<and> n \<ge> c)
   \<and> btc_isConfirmedTransactionByHash (explorer\<lparr>confirmations_of := \<lambda>x. Inr c\<rparr>) c h = Inr True
   \<and> btc_isConfirmedTransactionByHash (explorer\<lparr>confirmations_of := \<lambda>x. Inr (c - 1)\<rparr>) c h
       = Inr False"
proof (intro conjI)
  show "(eth_isConfirmedTransactionByHash chain c h = Inr (Bool True)) =
     (\<exists>r height. getTransactionReceipt chain h = Inr (Some r) \<and> getBlockNumber chain = Inr height
        \<and> status r = Bool True \<and> height - blockNumber r \<ge> c)"
  proof (cases "getTransactionReceipt chain h")
    case (Inl e)
    then show ?thesis by (simp add: eth_isConfirmedTransactionByHash_def)
  next
    case tx: (Inr tx)
    show ?thesis
    proof (cases "getBlockNumber chain")
      case (Inl e)
      with tx show ?thesis by (simp add: eth_isConfirmedTransactionByHash_def)
    next
      case (Inr height)
      with tx show ?thesis
        by (cases tx) (simp_all add: eth_isConfirmed_reads)
    qed
  qed
next
  show "(btc_isConfirmedTransactionByHash explorer c h = Inr True) =
     (\<exists>n. confirmations_of explorer h = Inr n \<and> n \<ge> c)"
    by (cases "confirmations_of explorer h") (simp_all add: btc_isConfirmedTransactionByHash_def)
qed (simp_all add: eth_isConfirmedTransactionByHash_def btc_isConfirmedTransactionByHash_def)

subsection \<open>Deposit classification, account model\<close>

text \<open>
  Claim C10, as the spec states it, fails: on a \<open>null\<close> result the account-model
  \<open>getReceivedTransactions\<close> returns the empty list, an ordinary value, and no failure.
\<close>

theorem getReceivedTransactions_null_counterexample:
  "eth_getReceivedTransactions (\<lambda>a. Inr ResultNull) Map.empty ''0xaa'' = Inr []
   \<and> \<not> isl (eth_getReceivedTransactions (\<lambda>a. Inr ResultNull) Map.empty ''0xaa'')"
  by (simp add: eth_getReceivedTransactions_def)

text \<open>
  Claim C10, amended. A \<open>null\<close> result and an empty array both give the empty list of
  deposits. What reaches the caller as a failure is the failure of the request itself,
  unchanged, and the TypeError of filtering a result that is not an array.
\<close>

theorem getReceivedTransactions_empty:
  "eth_getReceivedTransactions (api(a := Inr ResultNull)) ids a = Inr []
   \<and> eth_getReceivedTransactions (api(a := Inr (ResultList []))) ids a = Inr []
   \<and> eth_getReceivedTransactions (api(a := Inl e)) ids a = Inl e
   \<and> eth_getReceivedTransactions (api(a := Inr (ResultText m))) ids a = Inl TypeError"
  by (simp add: eth_getReceivedTransactions_def)

text \<open>
  Claim C8 fails for the account model. The filter of \<open>eth_getReceivedTransactions\<close> tests
  the call data and the recipient only: a transfer that the reserve address sends to
  itself is returned as a deposit, its sender being the reserve address.
\<close>

theorem getReceivedTransactions_self_transfer:
  "eth_getReceivedTransactions
     (\<lambda>a. Inr (ResultList
        [\<lparr>r_input = ''0x'', r_to = ''0xAA'', r_from = ''0xAA'', r_value = 10 ^ 18,
          r_gasPrice = 10 ^ 9, r_confirmations = 12, r_hash = ''0xF1''\<rparr>]))
     Map.empty ''0xaa''
   = Inr [\<lparr>in_reserveId = None, in_fromAddress = ''0xaa'', in_reserveAddress = ''0xaa'',
           in_amount = 1, in_fee = 21 / 10 ^ 6, in_confirmations = 12, in_hash = ''0xf1''\<rparr>]"
proof -
  have l: "toLower ''0xaa'' = ''0xaa''" "toLower ''0xAA'' = ''0xaa''" "toLower ''0xF1'' = ''0xf1''"
    by code_simp+
  show ?thesis
    by (simp add: eth_getReceivedTransactions_def Let_def l)
qed

subsection \<open>Hash maps\<close>

lemma fst_set_update: "fst ` set (AList.update k v m) = insert k (fst ` set m)"
proof -
  have "set (map fst (AList.update k v m)) = insert k (set (map fst m))"
    unfolding update_keys by auto
  then show ?thesis by simp
qed

lemma toHashMap_keys_acc:
  "fst ` set (foldl (\<lambda>m x. AList.update (key x) (val x) m) m0 xs) = fst ` set m0 \<union> key ` set xs"
  by (induction xs arbitrary: m0) (simp_all add: fst_set_update)

lemma toHashMap_distinct_acc:
  "distinct (map fst m0) \<Longrightarrow> distinct (map fst (foldl (\<lambda>m x. AList.update (key x) (val x) m) m0 xs))"
  by (induction xs arbitrary: m0) (auto simp: distinct_update)

lemma toHashMap_lookup_acc:
  "map_of (foldl (\<lambda>m x. AList.update (key x) True m) m0 xs) k =
     (if k \<in> key ` set xs then Some True else map_of m0 k)"
  by (induction xs arbitrary: m0) (auto simp: update_conv')

lemma keys_toHashMap: "set (keys (toHashMap key val xs)) = key ` set xs"
  by (simp add: keys_def toHashMap_def toHashMap_keys_acc)

lemma distinct_keys_toHashMap: "distinct (keys (toHashMap key val xs))"
  by (simp add: keys_def toHashMap_def toHashMap_distinct_acc)

lemma lookup_toHashMap_True:
  "lookup (toHashMap key (\<lambda>x. True) xs) k = (if k \<in> key ` set xs then Some True else None)"
  by (simp add: lookup_def toHashMap_def toHashMap_lookup_acc)

text \<open>
  The output-model classifier does make the test: a transaction that passes
  \<open>isDeposit\<close> has exactly one distinct input address, and it is not the reserve address.
\<close>

lemma isDeposit_sender:
  assumes "isDeposit reserveAddress tx"
  shows "\<exists>a. a \<noteq> reserveAddress \<and> addr ` set (b_vin tx) = {a}"
proof -
  let ?m = "toHashMap addr (\<lambda>i. True) (b_vin tx)"
  from assms have no: "lookup ?m reserveAddress \<noteq> Some True" and one: "length (keys ?m) = 1"
    by (auto simp: isDeposit_def Let_def split: if_splits)
  from one obtain a where a: "keys ?m = [a]"
    by (cases "keys ?m") auto
  then have "addr ` set (b_vin tx) = {a}"
    using keys_toHashMap [of addr "\<lambda>i. True" "b_vin tx"] by simp
  moreover from no have "reserveAddress \<notin> addr ` set (b_vin tx)"
    by (simp add: lookup_toHashMap_True split: if_splits)
  ultimately show ?thesis by auto
qed

subsection \<open>Payment preparation, output model\<close>

lemma mset_insertBy: "mset (insertBy cmp x xs) = add_mset x (mset xs)"
  by (induction xs) simp_all

lemma mset_insertAll:
  "mset (foldl (\<lambda>sorted x. insertBy cmp x sorted) acc xs) = mset acc + mset xs"
  by (induction xs arbitrary: acc) (simp_all add: mset_insertBy)

lemma mset_sortBy: "mset (sortBy cmp xs) = mset xs"
  by (simp add: sortBy_def mset_insertAll)

lemma set_insertBy: "set (insertBy cmp x xs) = insert x (set xs)"
  by (induction xs) auto

lemma sorted_insertBy:
  "sorted (map rq_amount xs) \<Longrightarrow> sorted (map rq_amount (insertBy byAmount x xs))"
  by (induction xs) (auto simp: byAmount_def set_insertBy)

lemma sorted_insertAll:
  "sorted (map rq_amount acc) \<Longrightarrow>
     sorted (map rq_amount (foldl (\<lambda>sorted x. insertBy byAmount x sorted) acc xs))"
  by (induction xs arbitrary: acc) (simp_all add: sorted_insertBy)

lemma sorted_sortBy: "sorted (map rq_amount (sortBy byAmount xs))"
  by (simp add: sortBy_def sorted_insertAll)

lemma sortBy_unique:
  assumes "mset xs = mset ys" and "distinct (map rq_amount xs)"
  shows "sortBy byAmount xs = sortBy byAmount ys"
proof -
  let ?a = "sortBy byAmount xs" and ?b = "sortBy byAmount ys"
  have m: "mset ?a = mset ?b"
    by (simp add: mset_sortBy assms(1))
  have "mset (map rq_amount ?a) = mset (map rq_amount xs)"
    by (simp add: mset_sortBy)
  with assms(2) have da: "distinct (map rq_amount ?a)"
    by (metis distinct_count_atmost_1 set_mset_mset)
  have "mset (map rq_amount ?b) = mset (map rq_amount ?a)"
    by (simp add: m)
  with da have db: "distinct (map rq_amount ?b)"
    by (metis distinct_count_atmost_1 set_mset_mset)
  have "set (map rq_amount ?a) = set (map rq_amount ?b)"
    using m by (metis mset_map set_mset_mset)
  with da db have eq: "map rq_amount ?a = map rq_amount ?b"
    by (intro sorted_distinct_set_unique sorted_sortBy)
  have "inj_on rq_amount (set ?a \<union> set ?b)"
    using da m by (metis distinct_map mset_eq_setD sup.idem)
  with eq show ?thesis
    by (simp add: inj_on_map_eq_map)
qed

lemma btc_preparePayment_Inr:
  assumes "traverse (\<lambda>w. getUnspentOutputs chain (address w)) wallets = Inr found"
    and "getEstimateFee chain 2 = Inr feeRate"
  shows "btc_preparePayment coinSelect chain wallets toAddresses spentOutputs =
    Inr (coinSelect
          (transformedUtxo
             (toHashMap (\<lambda>s. outputKey (so_txid s) (so_vout s)) (\<lambda>s. True) spentOutputs)
             (concat found))
          (transactions toAddresses) feeRate)"
  using assms by (simp add: btc_preparePayment_def)

lemma btc_preparePayment_transactions:
  assumes "btc_preparePayment coinSelect chain wallets toAddresses spentOutputs = Inr r"
  shows "\<exists>us feeRate. r = coinSelect us (transactions toAddresses) feeRate"
  using assms by (auto simp: btc_preparePayment_def split: sum.splits)

text \<open>
  Claim C5. The requests that \<open>btc_preparePayment\<close> hands to coin selection are the
  caller's requests sorted ascending by amount: the list is ordered by amount, it holds the
  same requests, and for requests of distinct amounts it does not depend on the order in
  which the caller listed them.
\<close>

theorem transactions_ascending:
  "sorted (map t_amount (transactions toAddresses))
   \<and> mset (map t_id (transactions toAddresses)) = mset (map rq_id toAddresses)
   \<and> (mset toAddresses = mset other \<and> distinct (map rq_amount toAddresses)
        \<longrightarrow> transactions toAddresses = transactions other)
   \<and> (btc_preparePayment coinSelect chain wallets toAddresses spentOutputs = Inr r
        \<longrightarrow> (\<exists>us feeRate. r = coinSelect us (transactions toAddresses) feeRate))"
proof (intro conjI impI)
  have "map t_amount (transactions toAddresses) = map rq_amount (sortBy byAmount toAddresses)"
    by (simp add: transactions_def comp_def)
  then show "sorted (map t_amount (transactions toAddresses))"
    by (simp add: sorted_sortBy)
next
  have "map t_id (transactions toAddresses) = map rq_id (sortBy byAmount toAddresses)"
    by (simp add: transactions_def comp_def)
  then show "mset (map t_id (transactions toAddresses)) = mset (map rq_id toAddresses)"
    by (simp add: mset_sortBy)
next
  assume "mset toAddresses = mset other \<and> distinct (map rq_amount toAddresses)"
  then have "sortBy byAmount toAddresses = sortBy byAmount other"
    by (simp add: sortBy_unique)
  then show "transactions toAddresses = transactions other"
    by (simp add: transactions_def)
next
  assume "btc_preparePayment coinSelect chain wallets toAddresses spentOutputs = Inr r"
  then show "\<exists>us feeRate. r = coinSelect us (transactions toAddresses) feeRate"
    by (rule btc_preparePayment_transactions)
qed

text \<open>
  The requests X of amount 5 and Y of amount 2: in either input order Y comes before X.
\<close>

theorem transactions_ascending_witness:
  "map t_id (transactions [\<lparr>rq_address = ''a1'', rq_amount = 5, rq_id = ''X''\<rparr>,
                           \<lparr>rq_address = ''a2'', rq_amount = 2, rq_id = ''Y''\<rparr>]) = [''Y'', ''X'']
   \<and> map t_id (transactions [\<lparr>rq_address = ''a2'', rq_amount = 2, rq_id = ''Y''\<rparr>,
                             \<lparr>rq_address = ''a1'', rq_amount = 5, rq_id = ''X''\<rparr>]) = [''Y'', ''X'']
   \<and> transactions [\<lparr>rq_address = ''a1'', rq_amount = 5, rq_id = ''X''\<rparr>,
                    \<lparr>rq_address = ''a2'', rq_amount = 2, rq_id = ''Y''\<rparr>]
     = transactions [\<lparr>rq_address = ''a2'', rq_amount = 2, rq_id = ''Y''\<rparr>,
                     \<lparr>rq_address = ''a1'', rq_amount = 5, rq_id = ''X''\<rparr>]
   \<and> btc_preparePayment (\<lambda>us ts feeRate. map t_id ts)
       \<lparr>utxo_of = (\<lambda>a. Inr []), estimatefee = (\<lambda>n. Inr 0), confirmations_of = (\<lambda>h. Inr 0),
        txs_page = (\<lambda>a n. Inr [])\<rparr> []
       [\<lparr>rq_address = ''a1'', rq_amount = 5, rq_id = ''X''\<rparr>,
        \<lparr>rq_address = ''a2'', rq_amount = 2, rq_id = ''Y''\<rparr>] []
     = Inr [''Y'', ''X'']"
proof -
  let ?X = "\<lparr>rq_address = ''a1'', rq_amount = 5, rq_id = ''X''\<rparr>"
  let ?Y = "\<lparr>rq_address = ''a2'', rq_amount = 2, rq_id = ''Y''\<rparr>"
  let ?cs = "\<lambda>(us :: utxo_value list) ts (feeRate :: int). map t_id ts"
  let ?chain = "\<lparr>utxo_of = (\<lambda>a. Inr []), estimatefee = (\<lambda>n. Inr 0),
                 confirmations_of = (\<lambda>h. Inr 0), txs_page = (\<lambda>a n. Inr [])\<rparr>"
  have ids: "map t_id (transactions [?Y, ?X]) = [''Y'', ''X'']"
    by (simp add: transactions_def sortBy_def byAmount_def)
  have pre: "mset [?X, ?Y] = mset [?Y, ?X] \<and> distinct (map rq_amount [?X, ?Y])"
    by simp
  have run: "btc_preparePayment ?cs ?chain [] [?X, ?Y] [] = Inr (map t_id (transactions [?X, ?Y]))"
    by (simp add: btc_preparePayment_def getEstimateFee_def)
  from transactions_ascending [of "[?X, ?Y]" "[?Y, ?X]" ?cs ?chain "[]" "[]" "map t_id (transactions [?X, ?Y])"]
    pre run
  have eq: "transactions [?X, ?Y] = transactions [?Y, ?X]"
    by blast
  with ids run show ?thesis
    by simp
qed

lemma decimal_nonempty: "decimal n \<noteq> []"
  by (subst decimal.simps) simp

lemma digit_inj: "a < 10 \<Longrightarrow> b < 10 \<Longrightarrow> (char_of (48 + a :: nat) :: char) = char_of (48 + b) \<Longrightarrow> a = b"
  by (simp add: char_of_eq_iff take_bit_eq_mod)

lemma decimal_inj: "decimal n = decimal m \<Longrightarrow> n = m"
proof (induction n arbitrary: m rule: decimal.induct)
  case (1 n)
  show ?case
  proof (cases "n < 10")
    case small: True
    show ?thesis
    proof (cases "m < 10")
      case True
      with small "1.prems" have "[char_of (48 + n) :: char] = [char_of (48 + m)]"
        by (subst (asm) (1 2) decimal.simps) simp
      with small True show ?thesis
        by (simp add: digit_inj)
    next
      case False
      with small "1.prems" have "[char_of (48 + n)] = decimal (m div 10) @ [char_of (48 + m mod 10)]"
        by (subst (asm) (1 2) decimal.simps) simp
      then show ?thesis
        using decimal_nonempty [of "m div 10"] by simp
    qed
  next
    case big: False
    show ?thesis
    proof (cases "m < 10")
      case True
      with big "1.prems" have "decimal (n div 10) @ [char_of (48 + n mod 10)] = [char_of (48 + m)]"
        by (subst (asm) (1 2) decimal.simps) simp
      then show ?thesis
        using decimal_nonempty [of "n div 10"] by simp
    next
      case False
      with big "1.prems" have
        "decimal (n div 10) @ [char_of (48 + n mod 10)] = decimal (m div 10) @ [char_of (48 + m mod 10)]"
        by (subst (asm) (1 2) decimal.simps) simp
      then have d: "decimal (n div 10) = decimal (m div 10)"
        and l: "(char_of (48 + n mod 10) :: char) = char_of (48 + m mod 10)"
        by simp_all
      from d big have "n div 10 = m div 10"
        by (rule "1.IH" [rotated])
      moreover from l have "n mod 10 = m mod 10"
        by (intro digit_inj) simp_all
      ultimately show ?thesis
        by (metis div_mult_mod_eq)
    qed
  qed
qed

lemma outputKey_inj:
  assumes "length t = length t'" and "outputKey t n = outputKey t' n'"
  shows "t = t' \<and> n = n'"
  using assms by (auto simp: outputKey_def dest: decimal_inj)

text \<open>
  Claim C6. When the reads succeed, \<open>btc_preparePayment\<close> passes to coin selection
  exactly the unspent outputs found, in order, whose confirmation count is greater than 0
  and whose pair of transaction id and output index is not among the spent outputs that the
  caller listed. Transaction ids are texts of one common length \<open>n\<close> (64 hexadecimal
  digits on the chain), which makes the key \<open>`${txid}${vout}`\<close> identify the pair.
\<close>

theorem preparePayment_candidates:
  assumes "traverse (\<lambda>w. getUnspentOutputs chain (address w)) wallets = Inr found"
    and "getEstimateFee chain 2 = Inr feeRate"
    and "\<forall>u \<in> set (concat found). length (u_txid u) = n"
    and "\<forall>s \<in> set spentOutputs. length (so_txid s) = n"
  shows "btc_preparePayment coinSelect chain wallets toAddresses spentOutputs =
    Inr (coinSelect
          (map assocValue
             (filter (\<lambda>u. u_confirmations u > 0
                        \<and> (u_txid u, u_vout u)
                            \<notin> set (map (\<lambda>s. (so_txid s, so_vout s)) spentOutputs))
                (concat found)))
          (transactions toAddresses) feeRate)"
proof -
  let ?key = "\<lambda>s. outputKey (so_txid s) (so_vout s)"
  have listed: "(lookup (toHashMap ?key (\<lambda>s. True) spentOutputs) (outputKey (u_txid u) (u_vout u))
        \<noteq> Some True)
      = ((u_txid u, u_vout u) \<notin> set (map (\<lambda>s. (so_txid s, so_vout s)) spentOutputs))"
    if u: "u \<in> set (concat found)" for u
  proof -
    have "(outputKey (u_txid u) (u_vout u) \<in> ?key ` set spentOutputs)
        = ((u_txid u, u_vout u) \<in> (\<lambda>s. (so_txid s, so_vout s)) ` set spentOutputs)"
    proof
      assume "outputKey (u_txid u) (u_vout u) \<in> ?key ` set spentOutputs"
      then obtain s where s: "s \<in> set spentOutputs"
        and k: "outputKey (u_txid u) (u_vout u) = outputKey (so_txid s) (so_vout s)"
        by auto
      from u s assms(3,4) have "length (u_txid u) = length (so_txid s)"
        by metis
      from this k have "u_txid u = so_txid s \<and> u_vout u = so_vout s"
        by (rule outputKey_inj)
      with s show "(u_txid u, u_vout u) \<in> (\<lambda>s. (so_txid s, so_vout s)) ` set spentOutputs"
        by force
    next
      assume "(u_txid u, u_vout u) \<in> (\<lambda>s. (so_txid s, so_vout s)) ` set spentOutputs"
      then show "outputKey (u_txid u) (u_vout u) \<in> ?key ` set spentOutputs"
        by force
    qed
    then show ?thesis
      by (simp add: lookup_toHashMap_True)
  qed
  have "transformedUtxo (toHashMap ?key (\<lambda>s. True) spentOutputs) (concat found) =
      map assocValue
        (filter (\<lambda>u. u_confirmations u > 0
                   \<and> (u_txid u, u_vout u) \<notin> set (map (\<lambda>s. (so_txid s, so_vout s)) spentOutputs))
           (concat found))"
    unfolding transformedUtxo_def
    by (rule arg_cong [where f = "map assocValue"], rule filter_cong) (simp_all add: listed)
  then show ?thesis
    by (simp add: btc_preparePayment_Inr [OF assms(1,2)])
qed

text \<open>
  One wallet with four unspent outputs: the second is unconfirmed, the third is listed as
  spent, the first and the fourth reach coin selection (which here answers the pairs of
  transaction id and output index it was given).
\<close>

theorem preparePayment_candidates_witness:
  "btc_preparePayment (\<lambda>us ts feeRate. map (\<lambda>u. (u_txid u, u_vout u)) us)
     \<lparr>utxo_of = (\<lambda>a. Inr
        [\<lparr>u_address = a, u_txid = ''aa'', u_vout = 0, u_satoshis = 100, u_confirmations = 3\<rparr>,
         \<lparr>u_address = a, u_txid = ''aa'', u_vout = 1, u_satoshis = 200, u_confirmations = 0\<rparr>,
         \<lparr>u_address = a, u_txid = ''bb'', u_vout = 12, u_satoshis = 300, u_confirmations = 5\<rparr>,
         \<lparr>u_address = a, u_txid = ''bb'', u_vout = 1, u_satoshis = 400, u_confirmations = 2\<rparr>]),
      estimatefee = (\<lambda>n. Inr 0), confirmations_of = (\<lambda>h. Inr 0), txs_page = (\<lambda>a n. Inr [])\<rparr>
     [\<lparr>address = ''w1'', privateKey = ''k1''\<rparr>] [] [\<lparr>so_txid = ''bb'', so_vout = 12\<rparr>]
   = Inr [(''aa'', 0), (''bb'', 1)]"
proof -
  let ?us = "\<lambda>a. [\<lparr>u_address = a, u_txid = ''aa'', u_vout = 0, u_satoshis = 100, u_confirmations = 3\<rparr>,
         \<lparr>u_address = a, u_txid = ''aa'', u_vout = 1, u_satoshis = 200, u_confirmations = 0\<rparr>,
         \<lparr>u_address = a, u_txid = ''bb'', u_vout = 12, u_satoshis = 300, u_confirmations = 5\<rparr>,
         \<lparr>u_address = a, u_txid = ''bb'', u_vout = 1, u_satoshis = 400, u_confirmations = 2\<rparr>]"
  let ?chain = "\<lparr>utxo_of = (\<lambda>a. Inr (?us a)), estimatefee = (\<lambda>n. Inr 0),
                 confirmations_of = (\<lambda>h. Inr 0), txs_page = (\<lambda>a n. Inr [])\<rparr>"
  let ?ws = "[\<lparr>address = ''w1'', privateKey = ''k1''\<rparr>]"
  let ?spent = "[\<lparr>so_txid = ''bb'', so_vout = 12\<rparr>]"
  have reads: "traverse (\<lambda>w. getUnspentOutputs ?chain (address w)) ?ws = Inr [?us ''w1'']"
    by (simp add: getUnspentOutputs_def)
  have fee: "getEstimateFee ?chain 2 = Inr 2"
    by (simp add: getEstimateFee_def)
  have lu: "\<forall>u \<in> set (concat [?us ''w1'']). length (u_txid u) = 2"
    by simp
  have ls: "\<forall>s \<in> set ?spent. length (so_txid s) = 2"
    by simp
  show ?thesis
    using preparePayment_candidates
      [where coinSelect = "\<lambda>us ts feeRate. map (\<lambda>u. (u_txid u, u_vout u)) us"
         and toAddresses = "[]", OF reads fee lu ls]
    by (simp add: assocValue_def)
qed

subsection \<open>Conversion to minor units\<close>

lemma floor_rat_numeral: "\<lfloor>numeral a / numeral b :: rat\<rfloor> = numeral a div numeral b"
  using floor_divide_of_int_eq [of "numeral a" "numeral b", where ?'a = rat] by simp

lemma roundBig_down: "roundBig 0 0 x = sgn x * of_int \<lfloor>\<bar>x\<bar>\<rfloor>"
  by (simp add: roundBig_def)

lemma parseIntOfBig_small:
  assumes "\<bar>\<lfloor>b\<rfloor>\<bar> < 2 ^ 53"
  shows "parseIntOfBig b = \<lfloor>b\<rfloor>"
proof -
  let ?v = "\<lfloor>b\<rfloor>"
  from assms have "nat \<bar>?v\<bar> < 2 ^ 53"
    by (simp add: nat_less_iff)
  then have "int (toNumber (nat \<bar>?v\<bar>)) = \<bar>?v\<bar>"
    by (simp add: toNumber_small)
  moreover have "sgn ?v * \<bar>?v\<bar> = ?v"
    by (simp add: sgn_if)
  moreover from assms have "\<bar>?v\<bar> < 10 ^ 21"
    by simp
  ultimately show ?thesis
    by (simp add: parseIntOfBig_def Let_def)
qed

lemma toSatoshi_truncates:
  assumes "\<bar>amount\<bar> * 10 ^ 8 < 2 ^ 53"
  shows "toSatoshi amount = (if amount \<ge> 0 then \<lfloor>amount * 10 ^ 8\<rfloor> else \<lceil>amount * 10 ^ 8\<rceil>)"
proof -
  let ?x = "amount * 10 ^ 8"
  have ax: "\<bar>?x\<bar> < 2 ^ 53"
    using assms by (simp add: abs_mult)
  have fl: "\<lfloor>sgn ?x * of_int \<lfloor>\<bar>?x\<bar>\<rfloor>\<rfloor> = (if amount \<ge> 0 then \<lfloor>?x\<rfloor> else \<lceil>?x\<rceil>)"
  proof (cases "amount \<ge> 0")
    case True
    then have "?x \<ge> 0" by simp
    then have "sgn ?x * of_int \<lfloor>\<bar>?x\<bar>\<rfloor> = of_int \<lfloor>?x\<rfloor>"
      by (cases "?x = 0") (simp_all add: sgn_if)
    then have "\<lfloor>sgn ?x * of_int \<lfloor>\<bar>?x\<bar>\<rfloor>\<rfloor> = \<lfloor>?x\<rfloor>"
      by (simp only: floor_of_int)
    with True show ?thesis by (simp only: if_True)
  next
    case False
    then have "?x < 0" by (simp add: mult_less_0_iff)
    then have "sgn ?x * of_int \<lfloor>\<bar>?x\<bar>\<rfloor> = of_int (- \<lfloor>- ?x\<rfloor>)"
      by (simp add: sgn_if)
    then have "\<lfloor>sgn ?x * of_int \<lfloor>\<bar>?x\<bar>\<rfloor>\<rfloor> = - \<lfloor>- ?x\<rfloor>"
      by (simp only: floor_of_int)
    with False show ?thesis by (simp only: if_False ceiling_def)
  qed
  have "\<bar>(if amount \<ge> 0 then \<lfloor>?x\<rfloor> else \<lceil>?x\<rceil>)\<bar> < 2 ^ 53"
    using ax by (auto simp: abs_if split: if_splits) linarith+
  with fl show ?thesis
    by (simp add: toSatoshi_def roundBig_down parseIntOfBig_small)
qed

lemma floor_bounds:
  fixes y :: rat
  assumes "y \<ge> 0"
  shows "\<bar>rat_of_int \<lfloor>y\<rfloor>\<bar> \<le> \<bar>y\<bar> \<and> \<bar>y - of_int \<lfloor>y\<rfloor>\<bar> < 1"
proof -
  have "rat_of_int \<lfloor>y\<rfloor> \<le> y" and "y < rat_of_int \<lfloor>y\<rfloor> + 1"
    using floor_correct [of y] by simp_all
  moreover from assms have "0 \<le> rat_of_int \<lfloor>y\<rfloor>"
    by simp
  ultimately show ?thesis
    using assms by linarith
qed

lemma ceiling_bounds:
  fixes y :: rat
  assumes "y < 0"
  shows "\<bar>rat_of_int \<lceil>y\<rceil>\<bar> \<le> \<bar>y\<bar> \<and> \<bar>y - of_int \<lceil>y\<rceil>\<bar> < 1"
proof -
  have "y \<le> rat_of_int \<lceil>y\<rceil>" and "rat_of_int \<lceil>y\<rceil> < y + 1"
    using ceiling_correct [of y] by simp_all
  moreover from assms have "rat_of_int \<lceil>y\<rceil> \<le> 0"
    by simp
  ultimately show ?thesis
    using assms by linarith
qed

text \<open>
  Claim C9, as the spec states it, fails: \<open>round(0, 0)\<close> is rounding mode 0 of big.js,
  towards zero. An amount of 0.123456789 coins is 12345678.9 satoshi, which the source
  turns into 12345678 where the rule of the spec gives 12345679.
\<close>

theorem toSatoshi_half_counterexample:
  "toSatoshi (123456789 / 10 ^ 9) = 12345678
   \<and> spec_roundHalfAwayFromZero (123456789 / 10 ^ 9 * 10 ^ 8) = 12345679
   \<and> toSatoshi (123456789 / 10 ^ 9) \<noteq> spec_roundHalfAwayFromZero (123456789 / 10 ^ 9 * 10 ^ 8)"
proof -
  have "\<bar>123456789 / 10 ^ 9 :: rat\<bar> * 10 ^ 8 < 2 ^ 53"
    by simp
  then have "toSatoshi (123456789 / 10 ^ 9) =
      (if (123456789 / 10 ^ 9 :: rat) \<ge> 0 then \<lfloor>(123456789 / 10 ^ 9 :: rat) * 10 ^ 8\<rfloor>
       else \<lceil>(123456789 / 10 ^ 9 :: rat) * 10 ^ 8\<rceil>)"
    by (rule toSatoshi_truncates)
  then have "toSatoshi (123456789 / 10 ^ 9) = 12345678"
    by (simp add: floor_rat_numeral)
  moreover have "spec_roundHalfAwayFromZero (123456789 / 10 ^ 9 * 10 ^ 8) = 12345679"
    by (simp add: spec_roundHalfAwayFromZero_def floor_rat_numeral)
  ultimately show ?thesis
    by simp
qed

text \<open>
  The satoshi value is a JavaScript number. Beyond \<open>2^53\<close> satoshi \<open>parseInt\<close> rounds
  a second time: 90071992.54740993 coins, that is \<open>2^53 + 1\<close> satoshi, become \<open>2^53\<close>.
\<close>

lemma toSatoshi_beyond: "toSatoshi (9007199254740993 / 10 ^ 8) = 9007199254740992"
  using toNumber_beyond by (simp add: toSatoshi_def roundBig_def parseIntOfBig_def)

text \<open>
  Claim C9, amended. For an amount below \<open>2^53\<close> satoshi (90071992.54740992 coins) in
  absolute value, the range in which a JavaScript number counts satoshi exactly, the
  satoshi value is the amount times \<open>10^8\<close> truncated towards zero, one rounding step.
  Converted back, it is never larger in absolute value than the amount, differs from it by
  less than one satoshi, and is the amount itself when the amount has at most 8 decimal
  places.
\<close>

theorem toSatoshi_truncation:
  assumes "\<bar>amount\<bar> * 10 ^ 8 < 2 ^ 53"
  shows "toSatoshi amount = (if amount \<ge> 0 then \<lfloor>amount * 10 ^ 8\<rfloor> else \<lceil>amount * 10 ^ 8\<rceil>)
       \<and> \<bar>fromSatoshi (toSatoshi amount)\<bar> \<le> \<bar>amount\<bar>
       \<and> \<bar>amount - fromSatoshi (toSatoshi amount)\<bar> < 1 / 10 ^ 8
       \<and> (amount * 10 ^ 8 \<in> \<int> \<longrightarrow> fromSatoshi (toSatoshi amount) = amount)"
proof -
  let ?x = "amount * 10 ^ 8"
  let ?v = "toSatoshi amount"
  note t = toSatoshi_truncates [OF assms]
  have scale: "fromSatoshi ?v = of_int ?v / 10 ^ 8" "amount = ?x / 10 ^ 8"
    by (simp_all add: fromSatoshi_def)
  have bounds: "\<bar>rat_of_int ?v\<bar> \<le> \<bar>?x\<bar> \<and> \<bar>?x - of_int ?v\<bar> < 1"
  proof (cases "amount \<ge> 0")
    case True
    then have "?x \<ge> 0" by simp
    moreover from True t have "?v = \<lfloor>?x\<rfloor>" by simp
    ultimately show ?thesis
      using floor_bounds [of ?x] by (simp only:)
  next
    case False
    then have "?x < 0" by (simp add: mult_less_0_iff)
    moreover from False t have "?v = \<lceil>?x\<rceil>" by simp
    ultimately show ?thesis
      using ceiling_bounds [of ?x] by (simp only:)
  qed
  have le: "\<bar>fromSatoshi ?v\<bar> \<le> \<bar>amount\<bar>"
  proof -
    have "\<bar>fromSatoshi ?v\<bar> = \<bar>rat_of_int ?v\<bar> / 10 ^ 8"
      by (simp add: fromSatoshi_def)
    also have "\<dots> \<le> \<bar>?x\<bar> / 10 ^ 8"
      using bounds by (simp add: divide_right_mono)
    also have "\<dots> = \<bar>amount\<bar>"
      by (simp add: abs_mult)
    finally show ?thesis .
  qed
  have "amount - fromSatoshi ?v = (?x - of_int ?v) / 10 ^ 8"
    by (simp add: fromSatoshi_def diff_divide_distrib)
  then have "\<bar>amount - fromSatoshi ?v\<bar> = \<bar>?x - of_int ?v\<bar> / 10 ^ 8"
    by (simp only: abs_divide) simp
  also have "\<dots> < 1 / 10 ^ 8"
    using bounds by (simp add: divide_strict_right_mono)
  finally have lt: "\<bar>amount - fromSatoshi ?v\<bar> < 1 / 10 ^ 8" .
  have exact: "fromSatoshi ?v = amount" if "?x \<in> \<int>"
  proof -
    from that obtain k :: int where k: "?x = of_int k"
      by (auto elim: Ints_cases)
    with t have "?v = k"
      by (simp only: floor_of_int ceiling_of_int if_cancel)
    with k show ?thesis
      by (simp add: fromSatoshi_def)
  qed
  from t le lt exact show ?thesis
    by blast
qed

theorem toSatoshi_truncation_witness:
  "\<bar>123456789 / 10 ^ 9 :: rat\<bar> * 10 ^ 8 < 2 ^ 53
   \<and> toSatoshi (123456789 / 10 ^ 9) = 12345678
   \<and> \<bar>123456789 / 10 ^ 9 - fromSatoshi (toSatoshi (123456789 / 10 ^ 9))\<bar> < 1 / 10 ^ 8
   \<and> fromSatoshi (toSatoshi (3 / 2)) = 3 / 2"
proof -
  have h: "\<bar>123456789 / 10 ^ 9 :: rat\<bar> * 10 ^ 8 < 2 ^ 53"
    by simp
  have h': "\<bar>3 / 2 :: rat\<bar> * 10 ^ 8 < 2 ^ 53"
    by simp
  have i: "(3 / 2 :: rat) * 10 ^ 8 \<in> \<int>"
    by simp
  have f: "\<lfloor>(123456789 / 10 ^ 9 :: rat) * 10 ^ 8\<rfloor> = 12345678"
    by (simp add: floor_rat_numeral)
  from toSatoshi_truncation [OF h]
  have b: "\<bar>123456789 / 10 ^ 9 - fromSatoshi (toSatoshi (123456789 / 10 ^ 9))\<bar> < 1 / 10 ^ 8"
    by blast
  from toSatoshi_truncation [OF h] have "toSatoshi (123456789 / 10 ^ 9) =
      (if (123456789 / 10 ^ 9 :: rat) \<ge> 0 then \<lfloor>(123456789 / 10 ^ 9 :: rat) * 10 ^ 8\<rfloor>
       else \<lceil>(123456789 / 10 ^ 9 :: rat) * 10 ^ 8\<rceil>)"
    by (rule conjunct1)
  with f have a: "toSatoshi (123456789 / 10 ^ 9) = 12345678"
    by simp
  from toSatoshi_truncation [OF h'] i have c: "fromSatoshi (toSatoshi (3 / 2)) = 3 / 2"
    by blast
  from h a b c show ?thesis
    by blast
qed

subsection \<open>Allocation, account model\<close>

lemma assign_None: "(assign rs amt = None) = (\<forall>r \<in> set rs. balance r < amt)"
  by (induction rs) (auto split: option.splits)

lemma assign_first:
  assumes "i < length rs" and "balance (rs ! i) \<ge> amt" and "\<forall>j < i. balance (rs ! j) < amt"
  shows "assign rs amt =
    Some (\<lparr>address = address (rs ! i), privateKey = privateKey (rs ! i)\<rparr>,
          rs[i := (rs ! i)\<lparr>balance := balance (rs ! i) - amt\<rparr>])"
  using assms
proof (induction rs arbitrary: i)
  case Nil
  then show ?case by simp
next
  case (Cons r rs)
  show ?case
  proof (cases i)
    case 0
    with Cons.prems show ?thesis by simp
  next
    case (Suc k)
    with Cons.prems have "balance r < amt"
      by auto
    moreover from Suc Cons.prems have "assign rs amt =
      Some (\<lparr>address = address (rs ! k), privateKey = privateKey (rs ! k)\<rparr>,
            rs[k := (rs ! k)\<lparr>balance := balance (rs ! k) - amt\<rparr>])"
      by (intro Cons.IH) auto
    ultimately show ?thesis
      using Suc by simp
  qed
qed

lemma walletsSelect_Cons_failed:
  assumes "assign rs (rq_amount q) = None"
  shows "walletsSelect rs (q # qs) =
    (\<lparr>f_id = rq_id q, f_amount = rq_amount q, f_toAddress = rq_address q\<rparr>
       # fst (walletsSelect rs qs),
     snd (walletsSelect rs qs))"
  using assms by (simp split: prod.splits)

lemma walletsSelect_Cons_success:
  assumes "assign rs (rq_amount q) = Some (w, rs')"
  shows "walletsSelect rs (q # qs) =
    (fst (walletsSelect rs' qs),
     \<lparr>s_wallet = w, s_id = rq_id q, s_amount = rq_amount q, s_toAddress = rq_address q\<rparr>
       # snd (walletsSelect rs' qs))"
  using assms by (simp split: prod.splits)

lemma walletsSelect_partition:
  "mset (map f_id (fst (walletsSelect rs qs))) + mset (map s_id (snd (walletsSelect rs qs)))
     = mset (map rq_id qs)"
proof (induction qs arbitrary: rs)
  case Nil
  then show ?case by simp
next
  case (Cons q qs)
  show ?case
  proof (cases "assign rs (rq_amount q)")
    case None
    then show ?thesis
      using Cons.IH [of rs] by (simp add: walletsSelect_Cons_failed del: walletsSelect.simps)
  next
    case (Some p)
    then obtain w rs' where "assign rs (rq_amount q) = Some (w, rs')"
      by (cases p) simp
    then show ?thesis
      using Cons.IH [of rs'] by (simp add: walletsSelect_Cons_success del: walletsSelect.simps)
  qed
qed

lemma walletsSelect_keeps:
  "tx \<in> set (snd (walletsSelect rs qs)) \<Longrightarrow>
     \<exists>q \<in> set qs. s_id tx = rq_id q \<and> s_amount tx = rq_amount q \<and> s_toAddress tx = rq_address q"
proof (induction qs arbitrary: rs)
  case Nil
  then show ?case by simp
next
  case (Cons q qs)
  show ?case
  proof (cases "assign rs (rq_amount q)")
    case None
    with Cons.prems have "tx \<in> set (snd (walletsSelect rs qs))"
      by (simp add: walletsSelect_Cons_failed del: walletsSelect.simps)
    then show ?thesis
      using Cons.IH [of rs] by auto
  next
    case (Some p)
    then obtain w rs' where a: "assign rs (rq_amount q) = Some (w, rs')"
      by (cases p) simp
    with Cons.prems consider
      "tx = \<lparr>s_wallet = w, s_id = rq_id q, s_amount = rq_amount q, s_toAddress = rq_address q\<rparr>"
      | "tx \<in> set (snd (walletsSelect rs' qs))"
      by (auto simp: walletsSelect_Cons_success simp del: walletsSelect.simps)
    then show ?thesis
    proof cases
      case 1
      then show ?thesis by simp
    next
      case 2
      then show ?thesis
        using Cons.IH [of rs'] by auto
    qed
  qed
qed

text \<open>
  Claim C1. \<open>assign\<close> fails exactly when no wallet's remaining balance reaches the
  amount; otherwise it picks the first wallet, in the order given, whose remaining balance
  is at least the amount and decrements that balance. \<open>walletsSelect\<close> handles the
  requests in the order given: a request that cannot be assigned is reported failed with
  its whole amount and leaves the balances as they were; an assigned one is recorded with
  its one wallet and its whole amount, and the requests after it see the decremented
  balance. Every request ends in exactly one of the two lists. For balances 5 and 3 and the
  requests A of 4, B of 2 and C of 3: A is funded by the first wallet, B by the second, and
  C fails.
\<close>

theorem walletsSelect_first_fit:
  "(assign rs amt = None) = (\<forall>r \<in> set rs. balance r < amt)
   \<and> (i < length rs \<and> balance (rs ! i) \<ge> amt \<and> (\<forall>j < i. balance (rs ! j) < amt)
        \<longrightarrow> assign rs amt =
            Some (\<lparr>address = address (rs ! i), privateKey = privateKey (rs ! i)\<rparr>,
                  rs[i := (rs ! i)\<lparr>balance := balance (rs ! i) - amt\<rparr>]))
   \<and> (assign rs (rq_amount q) = None
        \<longrightarrow> walletsSelect rs (q # qs) =
            (\<lparr>f_id = rq_id q, f_amount = rq_amount q, f_toAddress = rq_address q\<rparr>
               # fst (walletsSelect rs qs),
             snd (walletsSelect rs qs)))
   \<and> (assign rs (rq_amount q) = Some (w, rs')
        \<longrightarrow> walletsSelect rs (q # qs) =
            (fst (walletsSelect rs' qs),
             \<lparr>s_wallet = w, s_id = rq_id q, s_amount = rq_amount q, s_toAddress = rq_address q\<rparr>
               # snd (walletsSelect rs' qs)))
   \<and> mset (map f_id (fst (walletsSelect rs qs))) + mset (map s_id (snd (walletsSelect rs qs)))
       = mset (map rq_id qs)
   \<and> walletsSelect
         [\<lparr>address = a1, privateKey = k1, balance = 5\<rparr>,
          \<lparr>address = a2, privateKey = k2, balance = 3\<rparr>]
         [\<lparr>rq_address = toA, rq_amount = 4, rq_id = idA, rq_fee = fee\<rparr>,
          \<lparr>rq_address = toB, rq_amount = 2, rq_id = idB, rq_fee = fee\<rparr>,
          \<lparr>rq_address = toC, rq_amount = 3, rq_id = idC, rq_fee = fee\<rparr>]
       = ([\<lparr>f_id = idC, f_amount = 3, f_toAddress = toC\<rparr>],
          [\<lparr>s_wallet = \<lparr>address = a1, privateKey = k1\<rparr>, s_id = idA, s_amount = 4,
            s_toAddress = toA\<rparr>,
           \<lparr>s_wallet = \<lparr>address = a2, privateKey = k2\<rparr>, s_id = idB, s_amount = 2,
            s_toAddress = toB\<rparr>])"
proof (intro conjI impI)
  show "(assign rs amt = None) = (\<forall>r \<in> set rs. balance r < amt)"
    by (rule assign_None)
next
  assume "i < length rs \<and> balance (rs ! i) \<ge> amt \<and> (\<forall>j < i. balance (rs ! j) < amt)"
  then show "assign rs amt =
      Some (\<lparr>address = address (rs ! i), privateKey = privateKey (rs ! i)\<rparr>,
            rs[i := (rs ! i)\<lparr>balance := balance (rs ! i) - amt\<rparr>])"
    by (intro assign_first) simp_all
next
  assume "assign rs (rq_amount q) = None"
  then show "walletsSelect rs (q # qs) =
      (\<lparr>f_id = rq_id q, f_amount = rq_amount q, f_toAddress = rq_address q\<rparr>
         # fst (walletsSelect rs qs),
       snd (walletsSelect rs qs))"
    by (rule walletsSelect_Cons_failed)
next
  assume "assign rs (rq_amount q) = Some (w, rs')"
  then show "walletsSelect rs (q # qs) =
      (fst (walletsSelect rs' qs),
       \<lparr>s_wallet = w, s_id = rq_id q, s_amount = rq_amount q, s_toAddress = rq_address q\<rparr>
         # snd (walletsSelect rs' qs))"
    by (rule walletsSelect_Cons_success)
next
  show "mset (map f_id (fst (walletsSelect rs qs))) + mset (map s_id (snd (walletsSelect rs qs)))
       = mset (map rq_id qs)"
    by (rule walletsSelect_partition)
next
  show "walletsSelect
         [\<lparr>address = a1, privateKey = k1, balance = 5\<rparr>,
          \<lparr>address = a2, privateKey = k2, balance = 3\<rparr>]
         [\<lparr>rq_address = toA, rq_amount = 4, rq_id = idA, rq_fee = fee\<rparr>,
          \<lparr>rq_address = toB, rq_amount = 2, rq_id = idB, rq_fee = fee\<rparr>,
          \<lparr>rq_address = toC, rq_amount = 3, rq_id = idC, rq_fee = fee\<rparr>]
       = ([\<lparr>f_id = idC, f_amount = 3, f_toAddress = toC\<rparr>],
          [\<lparr>s_wallet = \<lparr>address = a1, privateKey = k1\<rparr>, s_id = idA, s_amount = 4,
            s_toAddress = toA\<rparr>,
           \<lparr>s_wallet = \<lparr>address = a2, privateKey = k2\<rparr>, s_id = idB, s_amount = 2,
            s_toAddress = toB\<rparr>])"
    by simp
qed

text \<open>
  The wallets hold 6 and 3 ether and the caller has earmarked 1 ether of the first, so the
  spendable balances are 5 and 3; the gas price is 1 gwei. After A the first wallet has 1
  left, so B goes to the second.
\<close>

theorem walletsSelect_first_fit_witness:
  "eth_preparePayment walletsSelect
     \<lparr>eth_getBalance = (\<lambda>a t. if a = ''w1'' then Inr (6 * 10 ^ 18) else Inr (3 * 10 ^ 18)),
      getTransactionReceipt = (\<lambda>h. Inr None), getBlockNumber = Inr 0,
      getGasPrice = Inr (10 ^ 9), getTransactionCount = (\<lambda>a. Inr 7)\<rparr>
     [\<lparr>address = ''w1'', privateKey = ''k1''\<rparr>, \<lparr>address = ''w2'', privateKey = ''k2''\<rparr>]
     [\<lparr>rq_address = ''a'', rq_amount = 4, rq_id = ''A''\<rparr>,
      \<lparr>rq_address = ''b'', rq_amount = 2, rq_id = ''B''\<rparr>,
      \<lparr>rq_address = ''c'', rq_amount = 3, rq_id = ''C''\<rparr>]
     [\<lparr>sb_address = ''w1'', sb_balance = NumberValue 1\<rparr>]
   = Inr \<lparr>p_fee = 21 / 10 ^ 6,
          p_prepareData = \<lparr>pd_gasPrice = 10 ^ 9,
            pd_wallets = fromPairs [(''w1'', \<lparr>nonce = 7\<rparr>), (''w2'', \<lparr>nonce = 7\<rparr>)]\<rparr>,
          p_failedTransactions = [\<lparr>f_id = ''C'', f_amount = 3, f_toAddress = ''c''\<rparr>],
          p_successTransactions =
            [\<lparr>s_wallet = \<lparr>address = ''w1'', privateKey = ''k1''\<rparr>, s_id = ''A'',
              s_amount = 4 - 21 / 10 ^ 6, s_toAddress = ''a''\<rparr>,
             \<lparr>s_wallet = \<lparr>address = ''w2'', privateKey = ''k2''\<rparr>, s_id = ''B'',
              s_amount = 2 - 21 / 10 ^ 6, s_toAddress = ''b''\<rparr>]\<rparr>
   \<and> assign [\<lparr>address = ''w1'', privateKey = ''k1'', balance = 1\<rparr>,
              \<lparr>address = ''w2'', privateKey = ''k2'', balance = 3\<rparr>] 2
     = Some (\<lparr>address = ''w2'', privateKey = ''k2''\<rparr>,
             [\<lparr>address = ''w1'', privateKey = ''k1'', balance = 1\<rparr>,
              \<lparr>address = ''w2'', privateKey = ''k2'', balance = 1\<rparr>])"
proof -
  let ?chain = "\<lparr>eth_getBalance = (\<lambda>a t. if a = ''w1'' then Inr (6 * 10 ^ 18) else Inr (3 * 10 ^ 18)),
      getTransactionReceipt = (\<lambda>h. Inr None), getBlockNumber = Inr 0,
      getGasPrice = Inr (10 ^ 9), getTransactionCount = (\<lambda>a. Inr 7)\<rparr>"
  let ?ws = "[\<lparr>address = ''w1'', privateKey = ''k1''\<rparr>, \<lparr>address = ''w2'', privateKey = ''k2''\<rparr>]"
  let ?rs = "[\<lparr>address = ''w1'', privateKey = ''k1'', balance = 1\<rparr>,
              \<lparr>address = ''w2'', privateKey = ''k2'', balance = 3\<rparr>]"
  note T = walletsSelect_first_fit
    [where ?a1.0 = "''w1''" and ?k1.0 = "''k1''" and ?a2.0 = "''w2''" and ?k2.0 = "''k2''"
       and toA = "''a''" and toB = "''b''" and toC = "''c''"
       and idA = "''A''" and idB = "''B''" and idC = "''C''" and fee = "21 / 10 ^ 6"
       and rs = ?rs and i = 1 and amt = 2]
  have reserves: "getReserveWithSpentBalances ?chain ?ws
      (lookup (toHashMap sb_address sb_balance [\<lparr>sb_address = ''w1'', sb_balance = NumberValue 1\<rparr>]))
    = Inr [\<lparr>address = ''w1'', privateKey = ''k1'', balance = 5\<rparr>,
           \<lparr>address = ''w2'', privateKey = ''k2'', balance = 3\<rparr>]"
    by (simp add: getReserveWithSpentBalances_def getBalance_def fromWei_def spendable_def
        toHashMap_def lookup_def)
  have pre: "1 < length ?rs \<and> balance (?rs ! 1) \<ge> 2 \<and> (\<forall>j < 1. balance (?rs ! j) < 2)"
    by simp
  from T pre have second: "assign ?rs 2 =
      Some (\<lparr>address = address (?rs ! 1), privateKey = privateKey (?rs ! 1)\<rparr>,
            ?rs[1 := (?rs ! 1)\<lparr>balance := balance (?rs ! 1) - 2\<rparr>])"
    by blast
  from T have sel: "walletsSelect
         [\<lparr>address = ''w1'', privateKey = ''k1'', balance = 5\<rparr>,
          \<lparr>address = ''w2'', privateKey = ''k2'', balance = 3\<rparr>]
         [\<lparr>rq_address = ''a'', rq_amount = 4, rq_id = ''A'', rq_fee = 21 / 10 ^ 6\<rparr>,
          \<lparr>rq_address = ''b'', rq_amount = 2, rq_id = ''B'', rq_fee = 21 / 10 ^ 6\<rparr>,
          \<lparr>rq_address = ''c'', rq_amount = 3, rq_id = ''C'', rq_fee = 21 / 10 ^ 6\<rparr>]
       = ([\<lparr>f_id = ''C'', f_amount = 3, f_toAddress = ''c''\<rparr>],
          [\<lparr>s_wallet = \<lparr>address = ''w1'', privateKey = ''k1''\<rparr>, s_id = ''A'', s_amount = 4,
            s_toAddress = ''a''\<rparr>,
           \<lparr>s_wallet = \<lparr>address = ''w2'', privateKey = ''k2''\<rparr>, s_id = ''B'', s_amount = 2,
            s_toAddress = ''b''\<rparr>])"
    by blast
  have fee: "(of_nat (10 ^ 9) :: rat) * (21 / 10 ^ 15) = 21 / 10 ^ 6"
    by simp
  show ?thesis
  proof
    show "eth_preparePayment walletsSelect ?chain ?ws
       [\<lparr>rq_address = ''a'', rq_amount = 4, rq_id = ''A''\<rparr>,
        \<lparr>rq_address = ''b'', rq_amount = 2, rq_id = ''B''\<rparr>,
        \<lparr>rq_address = ''c'', rq_amount = 3, rq_id = ''C''\<rparr>]
       [\<lparr>sb_address = ''w1'', sb_balance = NumberValue 1\<rparr>]
     = Inr \<lparr>p_fee = 21 / 10 ^ 6,
          p_prepareData = \<lparr>pd_gasPrice = 10 ^ 9,
            pd_wallets = fromPairs [(''w1'', \<lparr>nonce = 7\<rparr>), (''w2'', \<lparr>nonce = 7\<rparr>)]\<rparr>,
          p_failedTransactions = [\<lparr>f_id = ''C'', f_amount = 3, f_toAddress = ''c''\<rparr>],
          p_successTransactions =
            [\<lparr>s_wallet = \<lparr>address = ''w1'', privateKey = ''k1''\<rparr>, s_id = ''A'',
              s_amount = 4 - 21 / 10 ^ 6, s_toAddress = ''a''\<rparr>,
             \<lparr>s_wallet = \<lparr>address = ''w2'', privateKey = ''k2''\<rparr>, s_id = ''B'',
              s_amount = 2 - 21 / 10 ^ 6, s_toAddress = ''b''\<rparr>]\<rparr>"
      using sel reserves by (simp add: eth_preparePayment_def Let_def del: walletsSelect.simps)
  next
    from second show "assign ?rs 2
     = Some (\<lparr>address = ''w2'', privateKey = ''k2''\<rparr>,
             [\<lparr>address = ''w1'', privateKey = ''k1'', balance = 1\<rparr>,
              \<lparr>address = ''w2'', privateKey = ''k2'', balance = 1\<rparr>])"
      by simp
  qed
qed

subsection \<open>Payment preparation, account model\<close>

lemma eth_preparePayment_Inr:
  assumes "eth_preparePayment select chain wallets toAddresses spentBalances = Inr r"
  shows "\<exists>reserves gasPrice.
      getReserveWithSpentBalances chain wallets
        (lookup (toHashMap sb_address sb_balance spentBalances)) = Inr reserves
    \<and> getGasPrice chain = Inr gasPrice
    \<and> p_fee r = of_nat gasPrice * (21 / 10 ^ 15)
    \<and> p_failedTransactions r =
        fst (select reserves
          (map (\<lambda>q. \<lparr>rq_address = rq_address q, rq_amount = rq_amount q, rq_id = rq_id q,
                      rq_fee = of_nat gasPrice * (21 / 10 ^ 15)\<rparr>) toAddresses))
    \<and> p_successTransactions r =
        map (\<lambda>tx. tx\<lparr>s_amount := s_amount tx - of_nat gasPrice * (21 / 10 ^ 15)\<rparr>)
          (snd (select reserves
            (map (\<lambda>q. \<lparr>rq_address = rq_address q, rq_amount = rq_amount q, rq_id = rq_id q,
                        rq_fee = of_nat gasPrice * (21 / 10 ^ 15)\<rparr>) toAddresses)))"
  using assms
  by (auto simp: eth_preparePayment_def Let_def split: sum.splits prod.splits)

text \<open>
  Claim C4. \<open>select\<close> stands for \<open>walletsSelect\<close>, which records a selected request
  under its id with the amount requested. When \<open>eth_preparePayment\<close> succeeds, its fee is
  the gas price times 21000 (in ether: over \<open>10^18\<close>), and every entry of
  \<open>successTransactions\<close> carries the amount of its request minus that fee.
\<close>

theorem preparePayment_fee_deducted:
  assumes run: "eth_preparePayment select chain wallets toAddresses spentBalances = Inr r"
    and keeps: "\<forall>reserves requests. \<forall>tx \<in> set (snd (select reserves requests)).
        \<exists>q \<in> set requests. s_id tx = rq_id q \<and> s_amount tx = rq_amount q"
  shows "\<exists>gasPrice. getGasPrice chain = Inr gasPrice
    \<and> p_fee r = of_nat gasPrice * 21000 / 10 ^ 18
    \<and> (\<forall>st \<in> set (p_successTransactions r).
          \<exists>q \<in> set toAddresses. s_id st = rq_id q \<and> s_amount st = rq_amount q - p_fee r)"
proof -
  from eth_preparePayment_Inr [OF run] obtain reserves gasPrice where
    gp: "getGasPrice chain = Inr gasPrice"
    and fee: "p_fee r = of_nat gasPrice * (21 / 10 ^ 15)"
    and succ: "p_successTransactions r =
        map (\<lambda>tx. tx\<lparr>s_amount := s_amount tx - of_nat gasPrice * (21 / 10 ^ 15)\<rparr>)
          (snd (select reserves
            (map (\<lambda>q. \<lparr>rq_address = rq_address q, rq_amount = rq_amount q, rq_id = rq_id q,
                        rq_fee = of_nat gasPrice * (21 / 10 ^ 15)\<rparr>) toAddresses)))"
    by blast
  let ?ext = "\<lambda>q. \<lparr>rq_address = rq_address q, rq_amount = rq_amount q, rq_id = rq_id q,
                    rq_fee = of_nat gasPrice * (21 / 10 ^ 15)\<rparr>"
  have fee': "p_fee r = of_nat gasPrice * 21000 / 10 ^ 18"
    by (simp add: fee)
  have "\<exists>q \<in> set toAddresses. s_id st = rq_id q \<and> s_amount st = rq_amount q - p_fee r"
    if "st \<in> set (p_successTransactions r)" for st
  proof -
    from that succ obtain tx where tx: "tx \<in> set (snd (select reserves (map ?ext toAddresses)))"
      and st: "st = tx\<lparr>s_amount := s_amount tx - of_nat gasPrice * (21 / 10 ^ 15)\<rparr>"
      by auto
    from keeps tx obtain q' where "q' \<in> set (map ?ext toAddresses)"
      and q': "s_id tx = rq_id q'" "s_amount tx = rq_amount q'"
      by blast
    then obtain q where "q \<in> set toAddresses" and "q' = ?ext q"
      by auto
    with q' st fee show ?thesis
      by (intro bexI [of _ q]) simp_all
  qed
  with gp fee' show ?thesis
    by blast
qed

text \<open>
  One wallet of 5 ether at a gas price of 2 gwei, with the selection of section 4.3 of the
  spec: A of 4 and C of a half are funded, each recorded less the fee of 0.000042; B of 2
  fails and keeps its amount.
\<close>

theorem preparePayment_fee_deducted_witness:
  "\<exists>r. eth_preparePayment walletsSelect
         \<lparr>eth_getBalance = (\<lambda>a t. Inr (5 * 10 ^ 18)),
          getTransactionReceipt = (\<lambda>h. Inr None), getBlockNumber = Inr 0,
          getGasPrice = Inr (2 * 10 ^ 9), getTransactionCount = (\<lambda>a. Inr 0)\<rparr>
         [\<lparr>address = ''w1'', privateKey = ''k1''\<rparr>]
         [\<lparr>rq_address = ''a'', rq_amount = 4, rq_id = ''A''\<rparr>,
          \<lparr>rq_address = ''b'', rq_amount = 2, rq_id = ''B''\<rparr>,
          \<lparr>rq_address = ''c'', rq_amount = 1 / 2, rq_id = ''C''\<rparr>] [] = Inr r
      \<and> p_fee r = 42 / 10 ^ 6
      \<and> map (\<lambda>st. (s_id st, s_amount st)) (p_successTransactions r)
          = [(''A'', 4 - 42 / 10 ^ 6), (''C'', 1 / 2 - 42 / 10 ^ 6)]
      \<and> map (\<lambda>ft. (f_id ft, f_amount ft)) (p_failedTransactions r) = [(''B'', 2)]"
proof -
  let ?chain = "\<lparr>eth_getBalance = (\<lambda>a t. Inr (5 * 10 ^ 18)),
          getTransactionReceipt = (\<lambda>h. Inr None), getBlockNumber = Inr 0,
          getGasPrice = Inr (2 * 10 ^ 9), getTransactionCount = (\<lambda>a. Inr 0)\<rparr>"
  let ?ws = "[\<lparr>address = ''w1'', privateKey = ''k1''\<rparr>]"
  let ?qs = "[\<lparr>rq_address = ''a'', rq_amount = 4, rq_id = ''A''\<rparr>,
          \<lparr>rq_address = ''b'', rq_amount = 2, rq_id = ''B''\<rparr>,
          \<lparr>rq_address = ''c'', rq_amount = 1 / 2, rq_id = ''C''\<rparr>]"
  let ?r = "\<lparr>p_fee = 42 / 10 ^ 6,
          p_prepareData = \<lparr>pd_gasPrice = 2 * 10 ^ 9, pd_wallets = fromPairs [(''w1'', \<lparr>nonce = 0\<rparr>)]\<rparr>,
          p_failedTransactions = [\<lparr>f_id = ''B'', f_amount = 2, f_toAddress = ''b''\<rparr>],
          p_successTransactions =
            [\<lparr>s_wallet = \<lparr>address = ''w1'', privateKey = ''k1''\<rparr>, s_id = ''A'',
              s_amount = 4 - 42 / 10 ^ 6, s_toAddress = ''a''\<rparr>,
             \<lparr>s_wallet = \<lparr>address = ''w1'', privateKey = ''k1''\<rparr>, s_id = ''C'',
              s_amount = 1 / 2 - 42 / 10 ^ 6, s_toAddress = ''c''\<rparr>]\<rparr>"
  have run: "eth_preparePayment walletsSelect ?chain ?ws ?qs [] = Inr ?r"
    by (simp add: eth_preparePayment_def Let_def getReserveWithSpentBalances_def getBalance_def
        fromWei_def spendable_def toHashMap_def lookup_def)
  have keeps: "\<forall>reserves requests. \<forall>tx \<in> set (snd (walletsSelect reserves requests)).
        \<exists>q \<in> set requests. s_id tx = rq_id q \<and> s_amount tx = rq_amount q"
    using walletsSelect_keeps by blast
  from preparePayment_fee_deducted [OF run keeps]
  have "\<forall>st \<in> set (p_successTransactions ?r).
          \<exists>q \<in> set ?qs. s_id st = rq_id q \<and> s_amount st = rq_amount q - p_fee ?r"
    by blast
  with run show ?thesis
    by (intro exI [of _ ?r]) simp
qed

end
